theory Spec2Isabelle
  imports Main "HOL-Library.Sublist"
begin

section \<open>JavaScript string primitives used by the sources\<close>

text \<open>
  A string is a list of characters, one \<open>char\<close> for each code unit of the JavaScript
  string; code units above 255 have no \<open>char\<close>, and the sources only ever look for ASCII
  characters and ASCII substrings.
\<close>

text \<open>\<^verbatim>\<open>s.startsWith(p)\<close>\<close>

definition startsWith :: "string \<Rightarrow> string \<Rightarrow> bool" where
  "startsWith s p = (take (length p) s = p)"

text \<open>\<^verbatim>\<open>s.endsWith(p)\<close>\<close>

definition endsWith :: "string \<Rightarrow> string \<Rightarrow> bool" where
  "endsWith s p = (length p \<le> length s \<and> drop (length s - length p) s = p)"

text \<open>\<^verbatim>\<open>s.includes(p)\<close>: \<open>p\<close> occurs at some position of \<open>s\<close>.\<close>

fun str_includes :: "string \<Rightarrow> string \<Rightarrow> bool" where
  "str_includes [] p = (p = [])"
| "str_includes (c # cs) p = (startsWith (c # cs) p \<or> str_includes cs p)"

text \<open>
  \<^verbatim>\<open>s.split(sep)\<close> for a one-character separator, and \<^verbatim>\<open>s.split(/[...]/)\<close> for a
  character class: the separator is given as a predicate on characters. The result is
  never empty (\<^verbatim>\<open>''.split('.')\<close> is \<^verbatim>\<open>['']\<close>).
\<close>

fun str_split :: "(char \<Rightarrow> bool) \<Rightarrow> string \<Rightarrow> string list" where
  "str_split sep [] = [[]]"
| "str_split sep (c # cs) =
     (if sep c then [] # str_split sep cs
      else (case str_split sep cs of
              [] \<Rightarrow> [[c]]
            | w # ws \<Rightarrow> (c # w) # ws))"

text \<open>\<^verbatim>\<open>parts.join(sep)\<close>\<close>

fun str_join :: "string \<Rightarrow> string list \<Rightarrow> string" where
  "str_join sep [] = []"
| "str_join sep [x] = x"
| "str_join sep (x # y # ys) = x @ sep @ str_join sep (y # ys)"

text \<open>
  \<^verbatim>\<open>s.replace(pat, rep)\<close> with a string pattern: only the first (leftmost) occurrence
  of \<open>pat\<close> is replaced.
\<close>

fun str_replace :: "string \<Rightarrow> string \<Rightarrow> string \<Rightarrow> string" where
  "str_replace [] pat rep = (if pat = [] then rep else [])"
| "str_replace (c # cs) pat rep =
     (if startsWith (c # cs) pat then rep @ drop (length pat) (c # cs)
      else c # str_replace cs pat rep)"

text \<open>
  \<^verbatim>\<open>s.replace(/\.[^.]*$/, '')\<close>: the leftmost position where a dot is followed only
  by non-dot characters up to the end of the string is where the match starts; the match
  reaches the end of the string and is deleted.
\<close>

fun replaceLastExtension :: "string \<Rightarrow> string" where
  "replaceLastExtension [] = []"
| "replaceLastExtension (c # cs) =
     (if c = CHR ''.'' \<and> CHR ''.'' \<notin> set cs then []
      else c # replaceLastExtension cs)"

text \<open>\<^verbatim>\<open>s.match(/^[a-zA-Z]:\\/)\<close>: a drive letter, a colon, a backslash.\<close>

definition isAsciiLetter :: "char \<Rightarrow> bool" where
  "isAsciiLetter c =
     ((65 \<le> (of_char c :: nat) \<and> (of_char c :: nat) \<le> 90) \<or>
      (97 \<le> (of_char c :: nat) \<and> (of_char c :: nat) \<le> 122))"

fun matchesDrivePrefix :: "string \<Rightarrow> bool" where
  "matchesDrivePrefix (d # c # b # rest) =
     (isAsciiLetter d \<and> c = CHR '':'' \<and> b = CHR 0x5C)"
| "matchesDrivePrefix s = False"

section \<open>promptParser.ts\<close>

text \<open>
  The sources raise \<^verbatim>\<open>new Error(message)\<close>; an error is the message it carries.
\<close>

datatype error = Error string

datatype prompt_type = Ado | Github | Url | Local | Installed | Mcp

text \<open>
  \<^verbatim>\<open>interface ParsedPrompt\<close>: a type tag, the name, and the optional fields
  (\<open>None\<close> is \<^verbatim>\<open>undefined\<close>).
\<close>

record ParsedPrompt =
  p_type :: prompt_type
  p_name :: string
  p_url :: "string option"
  p_org :: "string option"
  p_project :: "string option"
  p_repo :: "string option"
  p_owner :: "string option"
  p_filePath :: "string option"
  p_localPath :: "string option"

definition emptyPrompt :: "prompt_type \<Rightarrow> string \<Rightarrow> ParsedPrompt" where
  "emptyPrompt t n =
     \<lparr>p_type = t, p_name = n, p_url = None, p_org = None, p_project = None,
      p_repo = None, p_owner = None, p_filePath = None, p_localPath = None\<rparr>"

text \<open>\<^verbatim>\<open>getPromptName\<close> (promptParser.ts, lines 102-114).\<close>

definition getPromptName :: "string \<Rightarrow> string" where
  "getPromptName prompt =
     (let parts = str_split (\<lambda>c. c = CHR ''/'' \<or> c = CHR 0x5C \<or> c = CHR '':'') prompt;
          lastPart = last parts
      in if endsWith lastPart ''.prompt.md''
         then str_replace lastPart ''.prompt.md'' ''''
         else replaceLastExtension lastPart)"

text \<open>\<^verbatim>\<open>addDefaultExtension\<close> (promptParser.ts, lines 121-125).\<close>

definition extensions :: "string list" where
  "extensions = [''.prompt.md'', ''.md'', ''.txt'', ''.json'']"

definition addDefaultExtension :: "string \<Rightarrow> string" where
  "addDefaultExtension path =
     (let hasExtension = list_ex (\<lambda>ext. endsWith path ext) extensions
      in if hasExtension then path else path @ ''.prompt.md'')"

text \<open>\<^verbatim>\<open>parsePrompt\<close> (promptParser.ts, lines 13-95).\<close>

definition parsePlatform :: "string \<Rightarrow> string \<Rightarrow> error + ParsedPrompt" where
  "parsePlatform name prompt =
     (case str_split (\<lambda>c. c = CHR '':'') prompt of
        [] \<Rightarrow> Inl (Error ''Invalid format. Use ado:org/project/repo/path or gh:owner/repo/path'')
      | platform # rest \<Rightarrow>
          if rest = []
          then Inl (Error ''Invalid format. Use ado:org/project/repo/path or gh:owner/repo/path'')
          else
            let fullPath = str_join '':'' rest in
            if platform = ''ado'' then
              (case str_split (\<lambda>c. c = CHR ''/'') fullPath of
                 org # project # repo # p # pathParts \<Rightarrow>
                   Inr ((emptyPrompt Ado name)
                          \<lparr>p_org := Some org, p_project := Some project, p_repo := Some repo,
                           p_filePath := Some (str_join ''/'' (p # pathParts))\<rparr>)
               | _ \<Rightarrow> Inl (Error ''Invalid ADO format. Use ado:org/project/repo/path''))
            else if platform = ''gh'' then
              (case str_split (\<lambda>c. c = CHR ''/'') fullPath of
                 owner # repo # p # pathParts \<Rightarrow>
                   Inr ((emptyPrompt Github name)
                          \<lparr>p_owner := Some owner, p_repo := Some repo,
                           p_filePath := Some (str_join ''/'' (p # pathParts))\<rparr>)
               | _ \<Rightarrow> Inl (Error ''Invalid GitHub format. Use gh:owner/repo/path''))
            else Inl (Error (''Unsupported platform: '' @ platform)))"

definition parsePrompt :: "string \<Rightarrow> error + ParsedPrompt" where
  "parsePrompt prompt =
     (if startsWith prompt ''mcp.'' then
        (let mcpParts = str_split (\<lambda>c. c = CHR ''.'') prompt
         in if length mcpParts \<noteq> 3
            then Inl (Error ''Invalid MCP prompt format. Expected: mcp.ServerName.PromptName'')
            else Inr (emptyPrompt Mcp prompt))
      else if startsWith prompt ''http://'' \<or> startsWith prompt ''https://'' then
        Inr ((emptyPrompt Url (getPromptName prompt))
               \<lparr>p_url := Some (addDefaultExtension prompt)\<rparr>)
      else if matchesDrivePrefix prompt \<or> startsWith prompt ''/'' then
        Inr ((emptyPrompt Local (getPromptName prompt))
               \<lparr>p_localPath := Some (addDefaultExtension prompt)\<rparr>)
      else if str_includes prompt '':'' then
        parsePlatform (getPromptName prompt) (addDefaultExtension prompt)
      else Inr (emptyPrompt Installed prompt))"

section \<open>mcpInstaller.ts: version comparison\<close>

text \<open>
  \<^verbatim>\<open>parseInt(part, 10)\<close>: leading white space is skipped, an optional sign is read,
  then the longest run of decimal digits; no digit at all gives \<^verbatim>\<open>NaN\<close>, here \<open>None\<close>.
  The result is the exact integer: JavaScript numbers agree with it for every segment
  below \<open>2 ^ 53\<close> (any segment of at most 15 digits).
\<close>

definition isWhiteSpace :: "char \<Rightarrow> bool" where
  "isWhiteSpace c = (of_char c \<in> {9, 10, 11, 12, 13, 32, 160 :: nat})"

definition isDigit :: "char \<Rightarrow> bool" where
  "isDigit c = (48 \<le> (of_char c :: nat) \<and> (of_char c :: nat) \<le> 57)"

definition digitValue :: "char \<Rightarrow> int" where
  "digitValue c = int (of_char c) - 48"

definition parseInt :: "string \<Rightarrow> int option" where
  "parseInt s =
     (let s1 = dropWhile isWhiteSpace s;
          sign = (if s1 \<noteq> [] \<and> hd s1 = CHR ''-'' then - 1 else 1);
          s2 = (if s1 \<noteq> [] \<and> (hd s1 = CHR ''-'' \<or> hd s1 = CHR ''+'') then tl s1 else s1);
          z = takeWhile isDigit s2
      in if z = [] then None
         else Some (sign * foldl (\<lambda>acc c. 10 * acc + digitValue c) 0 z))"

text \<open>
  Lines 193-204, done once for \<open>installed\<close> and once for \<open>required\<close>:
  \<^verbatim>\<open>v.split('-')[0].split('+')[0].split('.').map(part => { const num = parseInt(part, 10);
  return isNaN(num) ? 0 : num; })\<close>. Element 0 of a split always exists.
\<close>

definition cleanVersion :: "string \<Rightarrow> string" where
  "cleanVersion v =
     hd (str_split (\<lambda>c. c = CHR ''+'') (hd (str_split (\<lambda>c. c = CHR ''-'') v)))"

definition versionParts :: "string \<Rightarrow> int list" where
  "versionParts v =
     map (\<lambda>part. case parseInt part of None \<Rightarrow> 0 | Some num \<Rightarrow> num)
       (str_split (\<lambda>c. c = CHR ''.'') (cleanVersion v))"

text \<open>
  Lines 208-213: \<^verbatim>\<open>while (parts.length < maxLength) { parts.push(0); }\<close>
\<close>

function pushZeros :: "nat \<Rightarrow> int list \<Rightarrow> int list" where
  "pushZeros maxLength parts =
     (if length parts < maxLength then pushZeros maxLength (parts @ [0]) else parts)"
  by pat_completeness auto
termination
  by (relation "measure (\<lambda>(maxLength, parts). maxLength - length parts)") auto

declare pushZeros.simps [simp del]

text \<open>
  Lines 216-223, the comparison loop over the index \<open>i\<close>: \<open>Some True\<close> and
  \<open>Some False\<close> are the two \<^verbatim>\<open>return\<close>s inside the loop, \<open>None\<close> is leaving the
  loop with every part equal.
\<close>

function compareLoop :: "nat \<Rightarrow> nat \<Rightarrow> int list \<Rightarrow> int list \<Rightarrow> bool option" where
  "compareLoop i maxLength installedParts requiredParts =
     (if i < maxLength then
        (if installedParts ! i > requiredParts ! i then Some True
         else if installedParts ! i < requiredParts ! i then Some False
         else compareLoop (i + 1) maxLength installedParts requiredParts)
      else None)"
  by pat_completeness auto
termination
  by (relation "measure (\<lambda>(i, maxLength, a, b). maxLength - i)") auto

declare compareLoop.simps [simp del]

text \<open>Lines 206-223: pad both lists to the common length, then compare.\<close>

definition comparePadded :: "int list \<Rightarrow> int list \<Rightarrow> bool option" where
  "comparePadded installedParts requiredParts =
     (let maxLength = max (length installedParts) (length requiredParts)
      in compareLoop 0 maxLength
           (pushZeros maxLength installedParts) (pushZeros maxLength requiredParts))"

text \<open>\<^verbatim>\<open>isVersionSufficient\<close> (mcpInstaller.ts, lines 191-237).\<close>

definition isVersionSufficient :: "string \<Rightarrow> string \<Rightarrow> bool" where
  "isVersionSufficient installed required =
     (case comparePadded (versionParts installed) (versionParts required) of
        Some decided \<Rightarrow> decided
      | None \<Rightarrow>
          (let installedHasPrerelease = str_includes installed ''-'';
               requiredHasPrerelease = str_includes required ''-''
           in if \<not> installedHasPrerelease \<and> requiredHasPrerelease then True
              else if installedHasPrerelease \<and> \<not> requiredHasPrerelease then False
              else True))"

text \<open>
  The comparison as the specification words it: segment by segment from the left, the
  first strict inequality decides; \<open>None\<close> when no segment differs.
\<close>

fun firstInequality :: "int list \<Rightarrow> int list \<Rightarrow> bool option" where
  "firstInequality (x # xs) (y # ys) =
     (if x > y then Some True else if x < y then Some False else firstInequality xs ys)"
| "firstInequality xs ys = None"

definition padRight :: "nat \<Rightarrow> int list \<Rightarrow> int list" where
  "padRight n xs = xs @ replicate (n - length xs) 0"

section \<open>mcpInstaller.ts: installing a batch of servers\<close>

datatype transport = Stdio | Http

datatype env_value = EnvString string | EnvNumber int | EnvNull

text \<open>\<^verbatim>\<open>interface McpServerConfig\<close>; \<open>None\<close> is an absent field.\<close>

record McpServerConfig =
  s_name :: string
  s_type :: transport
  s_command :: "string option"
  s_args :: "string list option"
  s_url :: "string option"
  s_env :: "(string \<times> env_value) list option"
  s_nugetPackage :: "string option"
  s_version :: "string option"
  s_nugetFeed :: "string option"

text \<open>One entry of \<open>servers\<close> in mcp.json, and \<^verbatim>\<open>interface McpConfiguration\<close>.\<close>

record server_entry =
  e_type :: transport
  e_command :: "string option"
  e_args :: "string list option"
  e_url :: "string option"
  e_env :: "(string \<times> env_value) list option"

text \<open>
  The \<open>servers\<close> object has its own keys and a prototype. \<open>serversPrototype\<close> is \<open>None\<close>
  while the prototype is \<^verbatim>\<open>Object.prototype\<close>, as it is for every object that comes from
  \<^verbatim>\<open>JSON.parse\<close> or from a literal; an assignment to the key \<^verbatim>\<open>__proto__\<close> can replace it
  by the assigned entry.
\<close>

record McpConfiguration =
  servers :: "string \<rightharpoonup> server_entry"
  serversPrototype :: "server_entry option"
  inputs :: "string list"

text \<open>\<^verbatim>\<open>type InstallResult\<close>\<close>

record InstallResult =
  cancelled :: bool
  configModified :: bool

text \<open>
  A string-valued optional field used as a condition: \<^verbatim>\<open>undefined\<close> and the empty
  string are falsy.
\<close>

definition truthy :: "string option \<Rightarrow> bool" where
  "truthy v = (case v of None \<Rightarrow> False | Some s \<Rightarrow> s \<noteq> [])"

definition strOf :: "string option \<Rightarrow> string" where
  "strOf v = (case v of None \<Rightarrow> ''undefined'' | Some s \<Rightarrow> s)"

text \<open>
  What the installer does to the outside world, in the order it does it. The answers of
  the outside world (the package manager, the user, the file system) are functions of
  everything that happened before, so the same descriptor may be answered differently
  when it is met a second time.
\<close>

datatype event =
    NuGetVersionQuery string
  | Confirmation McpServerConfig bool
  | DotnetCommand "string list" nat
  | AddedToConfig string
  | WriteMcpConfig McpConfiguration

record install_world =
  nugetPackageVersion :: "event list \<Rightarrow> string \<Rightarrow> string option"
  installationConfirmation :: "event list \<Rightarrow> McpServerConfig \<Rightarrow> bool"
  dotnetCommand :: "event list \<Rightarrow> string list \<Rightarrow> nat \<times> string"
  writeFailure :: "event list \<Rightarrow> string option"

text \<open>
  The mcp.json file: missing, unreadable (reading or \<^verbatim>\<open>JSON.parse\<close> throws the given
  message), or holding a configuration.
\<close>

datatype registry_file = FileNotFound | Unreadable string | Stored McpConfiguration

record install_state =
  mcpFile :: registry_file
  events :: "event list"

definition emit :: "event \<Rightarrow> install_state \<Rightarrow> install_state" where
  "emit e st = st\<lparr>events := events st @ [e]\<rparr>"

text \<open>
  \<^verbatim>\<open>name in config.servers\<close>: an own key of the object, a key of the entry that was made
  its prototype, or a key inherited from \<^verbatim>\<open>Object.prototype\<close>.
\<close>

definition objectPrototypeKeys :: "string list" where
  "objectPrototypeKeys =
     [''constructor'', ''__defineGetter__'', ''__defineSetter__'', ''hasOwnProperty'',
      ''__lookupGetter__'', ''__lookupSetter__'', ''isPrototypeOf'',
      ''propertyIsEnumerable'', ''toString'', ''valueOf'', ''__proto__'',
      ''toLocaleString'']"

text \<open>The keys of an entry object built by \<open>addServerToConfig\<close>.\<close>

definition entryKeys :: "server_entry \<Rightarrow> string list" where
  "entryKeys e =
     [''type'']
     @ (if e_command e \<noteq> None then [''command''] else [])
     @ (if e_args e \<noteq> None then [''args''] else [])
     @ (if e_url e \<noteq> None then [''url''] else [])
     @ (if e_env e \<noteq> None then [''env''] else [])"

definition jsIn :: "string \<Rightarrow> McpConfiguration \<Rightarrow> bool" where
  "jsIn key config =
     (servers config key \<noteq> None \<or>
      (case serversPrototype config of
         None \<Rightarrow> False
       | Some e \<Rightarrow> key \<in> set (entryKeys e)) \<or>
      key \<in> set objectPrototypeKeys)"

text \<open>
  \<^verbatim>\<open>config.servers[key] = entry\<close>. For the key \<^verbatim>\<open>__proto__\<close>, when the object has no own
  key of that name, the assignment reaches the setter inherited from \<^verbatim>\<open>Object.prototype\<close>:
  the entry becomes the prototype of the object and no key is stored. Every other
  assignment stores or replaces an own key.
\<close>

definition assignServer :: "McpConfiguration \<Rightarrow> string \<Rightarrow> server_entry \<Rightarrow> McpConfiguration" where
  "assignServer config key entry =
     (if key = ''__proto__'' \<and> servers config key = None
      then config\<lparr>serversPrototype := Some entry\<rparr>
      else config\<lparr>servers := (servers config)(key \<mapsto> entry)\<rparr>)"

text \<open>
  \<^verbatim>\<open>addServerToConfig\<close> (lines 172-183); \<open>command\<close> and \<open>url\<close> are copied when truthy,
  \<open>args\<close> and \<open>env\<close> when present.
\<close>

definition addServerToConfig :: "McpConfiguration \<Rightarrow> McpServerConfig \<Rightarrow> McpConfiguration" where
  "addServerToConfig config server =
     assignServer config (s_name server)
       \<lparr>e_type = s_type server,
        e_command = (if truthy (s_command server) then s_command server else None),
        e_args = s_args server,
        e_url = (if truthy (s_url server) then s_url server else None),
        e_env = s_env server\<rparr>"

text \<open>\<^verbatim>\<open>installNuGetGlobalTool\<close> (lines 356-397).\<close>

definition installNuGetGlobalTool ::
  "install_world \<Rightarrow> McpServerConfig \<Rightarrow> install_state \<Rightarrow> (error + unit) \<times> install_state" where
  "installNuGetGlobalTool w server st =
     (if \<not> truthy (s_nugetPackage server)
      then (Inl (Error ''NuGet package name is required for installation''), st)
      else
        let packageName = strOf (s_nugetPackage server);
            installArgs = [''tool'', ''install'', ''--global'', packageName]
              @ (if truthy (s_nugetFeed server)
                 then [''--add-source'', strOf (s_nugetFeed server), ''--interactive'',
                       ''--ignore-failed-sources'']
                 else [])
              @ (if truthy (s_version server)
                 then [''--version'', strOf (s_version server)] else []);
            result = dotnetCommand w (events st) installArgs;
            st1 = emit (DotnetCommand installArgs (fst result)) st
        in if fst result \<noteq> 0
           then (Inl (Error (''dotnet tool install failed: '' @ snd result)), st1)
           else (Inr (), st1))"

text \<open>
  \<^verbatim>\<open>installNuGetForServer\<close> (lines 108-141). The configuration object is mutated in
  place in the source; here the possibly updated configuration is returned.
\<close>

definition confirmAndInstallNuGet ::
  "install_world \<Rightarrow> McpServerConfig \<Rightarrow> McpConfiguration \<Rightarrow> install_state \<Rightarrow>
   (error + InstallResult) \<times> McpConfiguration \<times> install_state" where
  "confirmAndInstallNuGet w server config st =
     (let shouldInstall = installationConfirmation w (events st) server;
          st1 = emit (Confirmation server shouldInstall) st
      in if \<not> shouldInstall
         then (Inr \<lparr>cancelled = True, configModified = False\<rparr>, config, st1)
         else (case installNuGetGlobalTool w server st1 of
                 (Inl e, st2) \<Rightarrow> (Inl e, config, st2)
               | (Inr u, st2) \<Rightarrow>
                   (Inr \<lparr>cancelled = False, configModified = True\<rparr>,
                    addServerToConfig config server,
                    emit (AddedToConfig (s_name server)) st2)))"

definition installNuGetForServer ::
  "install_world \<Rightarrow> McpServerConfig \<Rightarrow> McpConfiguration \<Rightarrow> install_state \<Rightarrow>
   (error + InstallResult) \<times> McpConfiguration \<times> install_state" where
  "installNuGetForServer w server config st =
     (if \<not> truthy (s_nugetPackage server)
      then (Inl (Error ''NuGet server configuration requires nugetPackage property''),
            config, st)
      else if truthy (s_version server) then
        (let installedVersion =
               nugetPackageVersion w (events st) (strOf (s_nugetPackage server));
             st1 = emit (NuGetVersionQuery (strOf (s_nugetPackage server))) st
         in if truthy installedVersion \<and>
               isVersionSufficient (strOf installedVersion) (strOf (s_version server))
            then (Inr \<lparr>cancelled = False, configModified = False\<rparr>, config, st1)
            else confirmAndInstallNuGet w server config st1)
      else confirmAndInstallNuGet w server config st)"

text \<open>\<^verbatim>\<open>installServerConfig\<close> (lines 149-165).\<close>

definition installServerConfig ::
  "install_world \<Rightarrow> McpServerConfig \<Rightarrow> McpConfiguration \<Rightarrow> install_state \<Rightarrow>
   (error + InstallResult) \<times> McpConfiguration \<times> install_state" where
  "installServerConfig w server config st =
     (if jsIn (s_name server) config
      then (Inr \<lparr>cancelled = False, configModified = False\<rparr>, config, st)
      else
        let shouldInstall = installationConfirmation w (events st) server;
            st1 = emit (Confirmation server shouldInstall) st
        in if \<not> shouldInstall
           then (Inr \<lparr>cancelled = True, configModified = False\<rparr>, config, st1)
           else (Inr \<lparr>cancelled = False, configModified = True\<rparr>,
                 addServerToConfig config server,
                 emit (AddedToConfig (s_name server)) st1))"

text \<open>
  What \<^verbatim>\<open>JSON.stringify\<close> keeps of a configuration, and what \<^verbatim>\<open>JSON.parse\<close> gives back:
  the own keys, with the prototype of \<^verbatim>\<open>Object\<close>.
\<close>

definition jsonContent :: "McpConfiguration \<Rightarrow> McpConfiguration" where
  "jsonContent config = config\<lparr>serversPrototype := None\<rparr>"

text \<open>\<^verbatim>\<open>writeMcpConfig\<close> (lines 274-284): the file changes only when the write succeeds.\<close>

definition writeMcpConfig ::
  "install_world \<Rightarrow> McpConfiguration \<Rightarrow> install_state \<Rightarrow> (error + unit) \<times> install_state" where
  "writeMcpConfig w config st =
     (case writeFailure w (events st) of
        Some msg \<Rightarrow> (Inl (Error msg), emit (WriteMcpConfig config) st)
      | None \<Rightarrow>
          (Inr (), (emit (WriteMcpConfig config) st)\<lparr>mcpFile := Stored (jsonContent config)\<rparr>))"

text \<open>
  \<^verbatim>\<open>readMcpConfig\<close> (lines 242-255): \<open>Inr None\<close> is \<^verbatim>\<open>null\<close>, the file does not exist.
\<close>

definition readMcpConfig :: "install_state \<Rightarrow> error + McpConfiguration option" where
  "readMcpConfig st =
     (case mcpFile st of
        FileNotFound \<Rightarrow> Inr None
      | Unreadable msg \<Rightarrow> Inl (Error msg)
      | Stored config \<Rightarrow> Inr (Some (jsonContent config)))"

text \<open>Line 66: \<^verbatim>\<open>await this.readMcpConfig() || { servers: {}, inputs: [] }\<close>\<close>

definition orEmptyConfig :: "McpConfiguration option \<Rightarrow> McpConfiguration" where
  "orEmptyConfig read =
     (case read of
        None \<Rightarrow> \<lparr>servers = Map.empty, serversPrototype = None, inputs = []\<rparr>
      | Some config \<Rightarrow> config)"

text \<open>
  \<^verbatim>\<open>installServers\<close> (lines 62-100). \<open>installOne\<close> is the body of the \<^verbatim>\<open>try\<close> up to the
  result; \<open>installLoop\<close> is the \<^verbatim>\<open>for\<close> loop followed by the write at the end. The result
  \<open>Inr False\<close> is \<^verbatim>\<open>return false\<close> (cancelled), \<open>Inr True\<close> is \<^verbatim>\<open>return true\<close>.
\<close>

definition installOne ::
  "install_world \<Rightarrow> McpServerConfig \<Rightarrow> McpConfiguration \<Rightarrow> install_state \<Rightarrow>
   (error + InstallResult) \<times> McpConfiguration \<times> install_state" where
  "installOne w server config st =
     (if truthy (s_nugetPackage server) then installNuGetForServer w server config st
      else installServerConfig w server config st)"

fun installLoop ::
  "install_world \<Rightarrow> McpServerConfig list \<Rightarrow> McpConfiguration \<Rightarrow> bool \<Rightarrow> install_state \<Rightarrow>
   (error + bool) \<times> install_state" where
  "installLoop w [] config needsConfigWrite st =
     (if needsConfigWrite then
        (case writeMcpConfig w config st of
           (Inl e, st1) \<Rightarrow> (Inl e, st1)
         | (Inr u, st1) \<Rightarrow> (Inr True, st1))
      else (Inr True, st))"
| "installLoop w (server # rest) config needsConfigWrite st =
     (case installOne w server config st of
        (Inl (Error msg), config1, st1) \<Rightarrow>
          (Inl (Error (''Failed to install MCP server '' @ [CHR 0x27] @ s_name server
                       @ [CHR 0x27] @ '': '' @ msg)), st1)
      | (Inr result, config1, st1) \<Rightarrow>
          if cancelled result then (Inr False, st1)
          else installLoop w rest config1
                 (if configModified result then True else needsConfigWrite) st1)"

definition installServers ::
  "install_world \<Rightarrow> McpServerConfig list \<Rightarrow> install_state \<Rightarrow> (error + bool) \<times> install_state" where
  "installServers w servers_list st =
     (case readMcpConfig st of
        Inl e \<Rightarrow> (Inl e, st)
      | Inr read \<Rightarrow> installLoop w servers_list (orEmptyConfig read) False st)"

text \<open>The events a call added to the history.\<close>

definition newEvents :: "install_state \<Rightarrow> install_state \<Rightarrow> event list" where
  "newEvents st st' = drop (length (events st)) (events st')"

fun isWrite :: "event \<Rightarrow> bool" where
  "isWrite (WriteMcpConfig c) = True"
| "isWrite e = False"

text \<open>
  Events of a step that neither decline a confirmation, nor touch the configuration, nor
  write the file.
\<close>

fun quietEvent :: "event \<Rightarrow> bool" where
  "quietEvent (Confirmation s b) = b"
| "quietEvent (AddedToConfig n) = False"
| "quietEvent (WriteMcpConfig c) = False"
| "quietEvent e = True"






subsection \<open>Example batches\<close>

text \<open>A configuration-only HTTP server and a NuGet-packaged stdio server.\<close>

definition exampleServer :: "string \<Rightarrow> McpServerConfig" where
  "exampleServer n =
     \<lparr>s_name = n, s_type = Http, s_command = None, s_args = None,
      s_url = Some ''https://example.test/mcp'', s_env = None, s_nugetPackage = None,
      s_version = None, s_nugetFeed = None\<rparr>"

definition exampleTool :: "string \<Rightarrow> McpServerConfig" where
  "exampleTool n =
     \<lparr>s_name = n, s_type = Stdio, s_command = Some ''example-tool'', s_args = Some [],
      s_url = None, s_env = None, s_nugetPackage = Some ''Example.Tool'',
      s_version = Some ''1.2.0'', s_nugetFeed = None\<rparr>"

text \<open>
  A user who declines the server named \<open>first\<close> and accepts every other one, with no
  package installed; and a user who accepts everything, with version 1.2 of every package
  installed.
\<close>

definition decliningWorld :: install_world where
  "decliningWorld =
     \<lparr>nugetPackageVersion = (\<lambda>h p. None),
      installationConfirmation = (\<lambda>h s. s_name s \<noteq> ''first''),
      dotnetCommand = (\<lambda>h a. (0, [])),
      writeFailure = (\<lambda>h. None)\<rparr>"

definition acceptingWorld :: install_world where
  "acceptingWorld =
     \<lparr>nugetPackageVersion = (\<lambda>h p. Some ''1.2''),
      installationConfirmation = (\<lambda>h s. True),
      dotnetCommand = (\<lambda>h a. (0, [])),
      writeFailure = (\<lambda>h. None)\<rparr>"

definition freshState :: install_state where
  "freshState = \<lparr>mcpFile = FileNotFound, events = []\<rparr>"

text \<open>
  A reinstallation: no package is reported as installed and the user accepts, while
  mcp.json already holds the entry that the descriptor \<open>exampleTool t\<close> records.
\<close>

definition installingWorld :: install_world where
  "installingWorld =
     \<lparr>nugetPackageVersion = (\<lambda>h p. None),
      installationConfirmation = (\<lambda>h s. True),
      dotnetCommand = (\<lambda>h a. (0, [])),
      writeFailure = (\<lambda>h. None)\<rparr>"

definition configuredConfig :: McpConfiguration where
  "configuredConfig =
     addServerToConfig \<lparr>servers = Map.empty, serversPrototype = None, inputs = []\<rparr>
       (exampleTool ''t'')"

definition configuredState :: install_state where
  "configuredState = \<lparr>mcpFile = Stored configuredConfig, events = []\<rparr>"

section \<open>mcpClient.ts: rendering a prompt through a client session\<close>

text \<open>
  The response of \<^verbatim>\<open>client.getPrompt\<close>: \<^verbatim>\<open>response.messages\<close> may be missing, and so may
  the \<^verbatim>\<open>content\<close> of a message.
\<close>

record PromptContent =
  c_type :: string
  c_text :: string

record PromptMessage =
  m_content :: "PromptContent option"

record PromptResponse =
  r_messages :: "PromptMessage list option"

text \<open>What \<^verbatim>\<open>JSON.parse(input)\<close> gives: a syntax error, an object, or any other value.\<close>

datatype json_result =
    JsonSyntaxError string
  | JsonObject "(string \<times> string) list"
  | JsonOther

text \<open>
  The outside world of one \<^verbatim>\<open>getPrompt\<close> call. \<open>Some msg\<close> is an operation that throws
  \<^verbatim>\<open>new Error(msg)\<close>.
\<close>

record client_world =
  jsonParse :: "string \<Rightarrow> json_result"
  authenticatedTransport :: "string \<Rightarrow> string option"
  connectFailure :: "McpServerConfig \<Rightarrow> string option"
  promptResult :: "string \<Rightarrow> (string \<times> string) list \<Rightarrow> error + PromptResponse"
  closeFailure :: "string option"

datatype client_event =
    Connected string
  | PromptRequested string "(string \<times> string) list"
  | CloseCalled
  | Logged string

definition quoted :: "string \<Rightarrow> string" where
  "quoted s = [CHR 0x27] @ s @ [CHR 0x27]"

text \<open>
  \<^verbatim>\<open>createClient\<close> (mcpClient.ts, lines 83-128). \<open>authenticatedTransport\<close> stands for
  \<^verbatim>\<open>createAuthenticatedTransport\<close>; the lines that function writes to the output channel
  are not recorded.
\<close>

definition connectClient ::
  "client_world \<Rightarrow> string \<Rightarrow> McpServerConfig \<Rightarrow> client_event list \<Rightarrow>
   (error + unit) \<times> client_event list" where
  "connectClient w serverName serverConfig tr =
     (let tr1 = tr @ [Logged (''promptu: Connecting to MCP server '' @ quoted serverName @ ''...'')]
      in case connectFailure w serverConfig of
           None \<Rightarrow>
             (Inr (), tr1 @ [Connected serverName,
                Logged (''promptu: Successfully connected to MCP server '' @ quoted serverName)])
         | Some message \<Rightarrow>
             if str_includes message ''Unauthorized'' \<or> str_includes message ''401''
                \<or> str_includes message ''403''
             then (Inl (Error (''Authentication failed for MCP server '' @ quoted serverName
                      @ ''. Currently only Microsoft OAuth is supported. Please ensure you have access to the required scopes.'')),
                   tr1)
             else (Inl (Error (''Failed to connect to MCP server '' @ quoted serverName
                      @ '': '' @ message)), tr1))"

definition createClient ::
  "client_world \<Rightarrow> string \<Rightarrow> McpServerConfig \<Rightarrow> client_event list \<Rightarrow>
   (error + unit) \<times> client_event list" where
  "createClient w serverName serverConfig tr =
     (case s_type serverConfig of
        Stdio \<Rightarrow>
          if \<not> truthy (s_command serverConfig)
          then (Inl (Error (''MCP server '' @ quoted serverName
                   @ '' requires a command for stdio transport'')), tr)
          else connectClient w serverName serverConfig tr
      | Http \<Rightarrow>
          if \<not> truthy (s_url serverConfig)
          then (Inl (Error (''MCP server '' @ quoted serverName
                   @ '' requires a URL for HTTP transport'')), tr)
          else (case authenticatedTransport w (strOf (s_url serverConfig)) of
                  Some msg \<Rightarrow> (Inl (Error msg), tr)
                | None \<Rightarrow> connectClient w serverName serverConfig tr))"

text \<open>
  The \<^verbatim>\<open>try\<close> block of \<^verbatim>\<open>getPrompt\<close> (lines 182-198): the request, then the text of
  the first message, or the error thrown inside the block.
\<close>

definition renderRequest ::
  "client_world \<Rightarrow> string \<Rightarrow> (string \<times> string) list \<Rightarrow> error + string" where
  "renderRequest w promptName promptArgs =
     (case promptResult w promptName promptArgs of
        Inl e \<Rightarrow> Inl e
      | Inr response \<Rightarrow>
          (case r_messages response of
             Some (message # others) \<Rightarrow>
               (case m_content message of
                  Some content \<Rightarrow>
                    if c_type content = ''text'' then Inr (c_text content)
                    else Inl (Error ''No text content found in MCP prompt response'')
                | None \<Rightarrow> Inl (Error ''No text content found in MCP prompt response''))
           | _ \<Rightarrow> Inl (Error ''No text content found in MCP prompt response'')))"

text \<open>
  The \<^verbatim>\<open>catch\<close> clause (lines 200-203): an error of the \<^verbatim>\<open>try\<close> block is logged and
  thrown again with the prompt and the server named; a returned text passes through.
\<close>

definition rethrowRenderError :: "string \<Rightarrow> string \<Rightarrow> error + string \<Rightarrow> error + string" where
  "rethrowRenderError serverName promptName outcome =
     (case outcome of
        Inr text \<Rightarrow> Inr text
      | Inl (Error message) \<Rightarrow>
          Inl (Error (''Failed to fetch prompt '' @ quoted promptName
                 @ '' from MCP server '' @ quoted serverName @ '': '' @ message)))"

text \<open>
  The \<^verbatim>\<open>try\<close>/\<^verbatim>\<open>catch\<close>/\<^verbatim>\<open>finally\<close> of \<^verbatim>\<open>getPrompt\<close> (lines 182-211), entered with a
  connected client: the outcome of the \<^verbatim>\<open>try\<close> and \<^verbatim>\<open>catch\<close> is fixed first, then the
  \<^verbatim>\<open>finally\<close> block calls \<^verbatim>\<open>client.close()\<close> inside its own \<^verbatim>\<open>try\<close>/\<^verbatim>\<open>catch\<close>.
\<close>

definition renderAndClose ::
  "client_world \<Rightarrow> string \<Rightarrow> string \<Rightarrow> (string \<times> string) list \<Rightarrow> client_event list \<Rightarrow>
   (error + string) \<times> client_event list" where
  "renderAndClose w serverName promptName promptArgs tr =
     (let tr1 = tr @ [PromptRequested promptName promptArgs];
          attempt = renderRequest w promptName promptArgs;
          tr2 = (case attempt of
                   Inr text \<Rightarrow>
                     tr1 @ [Logged ''promptu: Successfully fetched prompt from MCP server'']
                 | Inl (Error message) \<Rightarrow>
                     tr1 @ [Logged (''promptu: Error fetching MCP prompt: '' @ message)]);
          outcome = rethrowRenderError serverName promptName attempt;
          tr3 = tr2 @ [CloseCalled];
          tr4 = (case closeFailure w of
                   None \<Rightarrow>
                     tr3 @ [Logged (''promptu: Closed connection to MCP server ''
                                    @ quoted serverName)]
                 | Some closeMessage \<Rightarrow>
                     tr3 @ [Logged (''promptu: Error closing MCP client '' @ quoted serverName
                                    @ '': '' @ closeMessage)])
      in (outcome, tr4))"

text \<open>Lines 159-175: the input must be empty or the text of a JSON object.\<close>

definition parsePromptArgs :: "client_world \<Rightarrow> string \<Rightarrow> error + (string \<times> string) list" where
  "parsePromptArgs w input =
     (if input = [] then Inr []
      else
        let wrap = (\<lambda>m. Inl (Error (''MCP prompt input must be valid JSON object format. Example: {''
              @ [CHR 0x22] @ ''name'' @ [CHR 0x22] @ '': '' @ [CHR 0x22] @ ''value'' @ [CHR 0x22]
              @ '', '' @ [CHR 0x22] @ ''count'' @ [CHR 0x22] @ '': 5}. Error: '' @ m)))
        in case jsonParse w input of
             JsonObject parsed \<Rightarrow> Inr parsed
           | JsonOther \<Rightarrow>
               wrap ''MCP prompt input must be a JSON object with argument names and values''
           | JsonSyntaxError m \<Rightarrow> wrap m)"

text \<open>Lines 177-211: the client is created, then the guarded request is made.\<close>

definition openAndRender ::
  "client_world \<Rightarrow> string \<Rightarrow> string \<Rightarrow> McpServerConfig \<Rightarrow> (string \<times> string) list \<Rightarrow>
   client_event list \<Rightarrow> (error + string) \<times> client_event list" where
  "openAndRender w serverName promptName serverConfig promptArgs tr =
     (case createClient w serverName serverConfig tr of
        (Inl e, tr1) \<Rightarrow> (Inl e, tr1)
      | (Inr client, tr1) \<Rightarrow>
          renderAndClose w serverName promptName promptArgs
            (tr1 @ [Logged (''promptu: Fetching prompt '' @ quoted promptName
                 @ '' from MCP server '' @ quoted serverName @ ''...'')]))"

text \<open>\<^verbatim>\<open>getPrompt\<close> (mcpClient.ts, lines 138-212).\<close>

definition getPrompt ::
  "client_world \<Rightarrow> string \<Rightarrow> string \<Rightarrow> McpServerConfig list \<Rightarrow> client_event list \<Rightarrow>
   (error + string) \<times> client_event list" where
  "getPrompt w mcpPromptName input mcpServers tr =
     (case str_split (\<lambda>c. c = CHR ''.'') mcpPromptName of
        [part0, serverName, promptName] \<Rightarrow>
          if part0 \<noteq> ''mcp''
          then (Inl (Error ''Invalid MCP prompt format. Expected: mcp.ServerName.PromptName''), tr)
          else
            (case find (\<lambda>server. s_name server = serverName) mcpServers of
               None \<Rightarrow>
                 (Inl (Error (''MCP server '' @ quoted serverName
                    @ '' not found in provided configuration. The MCP server must be specified in the URI.'')),
                  tr)
             | Some serverConfig \<Rightarrow>
                 (case parsePromptArgs w input of
                    Inl e \<Rightarrow> (Inl e, tr)
                  | Inr promptArgs \<Rightarrow>
                      openAndRender w serverName promptName serverConfig promptArgs tr))
      | _ \<Rightarrow> (Inl (Error ''Invalid MCP prompt format. Expected: mcp.ServerName.PromptName''), tr))"

text \<open>An example session: a stdio server whose first message is a text block.\<close>

definition exampleClientWorld :: "string option \<Rightarrow> client_world" where
  "exampleClientWorld closing =
     \<lparr>jsonParse = (\<lambda>s. JsonOther),
      authenticatedTransport = (\<lambda>u. None),
      connectFailure = (\<lambda>s. None),
      promptResult = (\<lambda>n a.
         if n = ''review''
         then Inr \<lparr>r_messages = Some [\<lparr>m_content = Some \<lparr>c_type = ''text'', c_text = ''Review this''\<rparr>\<rparr>]\<rparr>
         else Inl (Error ''Unknown prompt'')),
      closeFailure = closing\<rparr>"

section \<open>promptFetcher.ts: retrieval with fallback\<close>

text \<open>
  The outcome of \<^verbatim>\<open>fetch(url, ...)\<close> followed by \<^verbatim>\<open>response.text()\<close>: rejected with a
  message, aborted by the timeout (\<^verbatim>\<open>AbortError\<close>), or a response with its \<^verbatim>\<open>ok\<close> flag,
  status, status text and body.
\<close>

datatype fetch_outcome =
    FetchRejected string
  | FetchAborted
  | FetchResponse bool nat string string

text \<open>
  The outcome of the spawned git process: it could not be started, or it closed with an
  exit code (\<open>None\<close> is \<^verbatim>\<open>null\<close>, a killed process), its standard error, and the files it
  put into the target directory (relative path and content).
\<close>

datatype git_outcome =
    GitSpawnError string
  | GitClosed "nat option" string "(string \<times> string) list"

record fetch_world =
  adoSession :: "error + string"
  httpFetch :: "string \<Rightarrow> (string \<times> string) list \<Rightarrow> fetch_outcome"
  gitProcess :: "string list \<Rightarrow> git_outcome"
  tempDir :: string
  globalStoragePath :: string
  directoryFailure :: "string option"
  fileWriteFailure :: "string option"
  fileCopyFailure :: "string option"

datatype fetch_event =
    HttpGet string "(string \<times> string) list"
  | GitRun "string list"
  | FileWritten string string
  | FileCopied string string
  | DirectoryRemoved string
  | Notification

text \<open>
  The file system (path to content), the \<^verbatim>\<open>chat.promptFilesLocations\<close> setting, and the
  history of what the fetcher did. Calls of \<^verbatim>\<open>outputChannel.appendLine\<close> are left out.
\<close>

record fetch_state =
  files :: "string \<rightharpoonup> string"
  promptFilesLocations :: "string \<rightharpoonup> bool"
  fetchLog :: "fetch_event list"

definition record_event :: "fetch_event \<Rightarrow> fetch_state \<Rightarrow> fetch_state" where
  "record_event e st = st\<lparr>fetchLog := fetchLog st @ [e]\<rparr>"

text \<open>\<^verbatim>\<open>path.join(a, b)\<close>, without the normalisation of the joined path.\<close>

definition pathJoin :: "string \<Rightarrow> string \<Rightarrow> string" where
  "pathJoin a b = a @ ''/'' @ b"

text \<open>A number inside a template string.\<close>

function decimal :: "nat \<Rightarrow> string" where
  "decimal n =
     (if n < 10 then [char_of (48 + n)]
      else decimal (n div 10) @ [char_of (48 + n mod 10)])"
  by pat_completeness auto
termination
  by (relation "measure id") auto

declare decimal.simps [simp del]

definition typeName :: "prompt_type \<Rightarrow> string" where
  "typeName t =
     (case t of Ado \<Rightarrow> ''ado'' | Github \<Rightarrow> ''github'' | Url \<Rightarrow> ''url'' | Local \<Rightarrow> ''local''
      | Installed \<Rightarrow> ''installed'' | Mcp \<Rightarrow> ''mcp'')"

text \<open>\<^verbatim>\<open>ensurePromptsDirectory\<close> (lines 124-162).\<close>

definition ensurePromptsDirectory ::
  "fetch_world \<Rightarrow> fetch_state \<Rightarrow> (error + string) \<times> fetch_state" where
  "ensurePromptsDirectory w st =
     (let promptsDir = pathJoin (globalStoragePath w) ''prompts''
      in case directoryFailure w of
           Some msg \<Rightarrow> (Inl (Error (''Failed to setup prompts directory: '' @ msg)), st)
         | None \<Rightarrow>
             if promptFilesLocations st promptsDir \<noteq> Some True
             then (Inr promptsDir,
                   record_event Notification
                     (st\<lparr>promptFilesLocations := (promptFilesLocations st)(promptsDir \<mapsto> True)\<rparr>))
             else (Inr promptsDir, st))"

text \<open>
  \<^verbatim>\<open>storePromptInStorage\<close> (lines 87-117); the source is a string to write or the path of
  a file to copy, and \<^verbatim>\<open>stat\<close> fails when no file is at that path.
\<close>

datatype prompt_source = Content string | SourceFile string

definition storePromptInStorage ::
  "fetch_world \<Rightarrow> prompt_source \<Rightarrow> string \<Rightarrow> fetch_state \<Rightarrow> (error + unit) \<times> fetch_state" where
  "storePromptInStorage w source promptName st =
     (let operation = (case source of
                         Content c \<Rightarrow> ''write content''
                       | SourceFile path \<Rightarrow> ''copy file '' @ quoted path);
          failed = (\<lambda>msg. Inl (Error (''Failed to '' @ operation @ '' to storage: '' @ msg)))
      in case ensurePromptsDirectory w st of
           (Inl (Error msg), st1) \<Rightarrow> (failed msg, st1)
         | (Inr promptsDir, st1) \<Rightarrow>
             (let destPath = pathJoin promptsDir (promptName @ ''.prompt.md'')
              in case source of
                  Content content \<Rightarrow>
                    (case fileWriteFailure w of
                       Some msg \<Rightarrow> (failed msg, st1)
                     | None \<Rightarrow>
                         (Inr (), record_event (FileWritten destPath content)
                                    (st1\<lparr>files := (files st1)(destPath \<mapsto> content)\<rparr>)))
                | SourceFile path \<Rightarrow>
                    (case files st1 path of
                       None \<Rightarrow> (failed (''Source file not found: '' @ path), st1)
                     | Some content \<Rightarrow>
                         (case fileCopyFailure w of
                            Some msg \<Rightarrow> (failed msg, st1)
                          | None \<Rightarrow>
                              (Inr (), record_event (FileCopied path destPath)
                                         (st1\<lparr>files := (files st1)(destPath \<mapsto> content)\<rparr>))))))"

text \<open>\<^verbatim>\<open>fetchViaHttp\<close> (lines 197-227); the timeout is 60000 ms.\<close>

definition isSignInPage :: "string \<Rightarrow> bool" where
  "isSignInPage content =
     (str_includes content ''<html'' \<or> str_includes content ''Sign in to your account'')"

definition fetchViaHttp ::
  "fetch_world \<Rightarrow> string \<Rightarrow> (string \<times> string) list \<Rightarrow> error + string" where
  "fetchViaHttp w url headers =
     (case httpFetch w url headers of
        FetchAborted \<Rightarrow> Inl (Error (''Request timed out after '' @ decimal (60000 div 1000)
                                    @ '' seconds''))
      | FetchRejected msg \<Rightarrow> Inl (Error msg)
      | FetchResponse ok status statusText content \<Rightarrow>
          if \<not> ok then Inl (Error (''HTTP '' @ decimal status @ '': '' @ statusText))
          else if isSignInPage content
          then Inl (Error ''Authentication failed - received sign-in page'')
          else Inr content)"

text \<open>\<^verbatim>\<open>buildRawFileUrl\<close> (lines 273-282) and \<^verbatim>\<open>buildGitUrl\<close> (lines 294-301).\<close>

definition buildRawFileUrl :: "ParsedPrompt \<Rightarrow> error + string" where
  "buildRawFileUrl parsedPrompt =
     (if p_type parsedPrompt = Ado then
        Inr (''https://'' @ strOf (p_org parsedPrompt) @ ''.visualstudio.com/''
             @ strOf (p_project parsedPrompt) @ ''/_apis/git/repositories/''
             @ strOf (p_repo parsedPrompt) @ ''/items?path=/'' @ strOf (p_filePath parsedPrompt))
      else if p_type parsedPrompt = Github then
        Inr (''https://raw.githubusercontent.com/'' @ strOf (p_owner parsedPrompt) @ ''/''
             @ strOf (p_repo parsedPrompt) @ ''/main/'' @ strOf (p_filePath parsedPrompt))
      else Inl (Error (''Cannot build raw file URL for type: '' @ typeName (p_type parsedPrompt))))"

definition buildGitUrl :: "ParsedPrompt \<Rightarrow> error + string" where
  "buildGitUrl parsedPrompt =
     (if p_type parsedPrompt = Ado then
        Inr (''https://'' @ strOf (p_org parsedPrompt) @ ''.visualstudio.com/''
             @ strOf (p_project parsedPrompt) @ ''/_git/'' @ strOf (p_repo parsedPrompt))
      else if p_type parsedPrompt = Github then
        Inr (''https://github.com/'' @ strOf (p_owner parsedPrompt) @ ''/''
             @ strOf (p_repo parsedPrompt) @ ''.git'')
      else Inl (Error (''Cannot build git URL for type: '' @ typeName (p_type parsedPrompt))))"

text \<open>\<^verbatim>\<open>getADOAuthHeaders\<close> (lines 308-318).\<close>

definition getADOAuthHeaders :: "fetch_world \<Rightarrow> error + (string \<times> string) list" where
  "getADOAuthHeaders w =
     (case adoSession w of
        Inl e \<Rightarrow> Inl e
      | Inr accessToken \<Rightarrow>
          if accessToken \<noteq> [] then Inr [(''Authorization'', ''Bearer '' @ accessToken)]
          else Inl (Error ''Failed to get access token from VSCode''))"

text \<open>
  \<^verbatim>\<open>executeGitCommand\<close> (lines 326-351); on exit code 0 the files of the repository are
  in the target directory, the last argument of the command.
\<close>

definition checkout :: "string \<Rightarrow> (string \<times> string) list \<Rightarrow> (string \<rightharpoonup> string) \<Rightarrow> (string \<rightharpoonup> string)" where
  "checkout dir tree fs = fold (\<lambda>(rel, content) m. m(pathJoin dir rel \<mapsto> content)) tree fs"

definition executeGitCommand ::
  "fetch_world \<Rightarrow> string list \<Rightarrow> fetch_state \<Rightarrow> (error + unit) \<times> fetch_state" where
  "executeGitCommand w args st =
     (let st1 = record_event (GitRun args) st
      in case gitProcess w args of
           GitSpawnError msg \<Rightarrow> (Inl (Error (''Git command error: '' @ msg)), st1)
         | GitClosed code stderr tree \<Rightarrow>
             if code = Some 0
             then (Inr (), st1\<lparr>files := checkout (last args) tree (files st1)\<rparr>)
             else (Inl (Error (''Git command failed (exit code ''
                      @ (case code of None \<Rightarrow> ''null'' | Some n \<Rightarrow> decimal n)
                      @ ''): '' @ stderr)), st1))"

text \<open>\<^verbatim>\<open>cleanupDirectory\<close> (lines 357-365).\<close>

definition cleanupDirectory :: "string \<Rightarrow> fetch_state \<Rightarrow> fetch_state" where
  "cleanupDirectory dirPath st =
     record_event (DirectoryRemoved dirPath)
       (st\<lparr>files := (\<lambda>path. if startsWith path (dirPath @ ''/'') then None else files st path)\<rparr>)"

text \<open>
  \<^verbatim>\<open>fetchViaGitToFile\<close> (lines 236-261): every error inside the \<^verbatim>\<open>try\<close> is thrown
  again after the temporary directory is removed. \<^verbatim>\<open>path.join\<close> throws on a missing
  \<open>filePath\<close>.
\<close>

definition fetchViaGitToFile ::
  "fetch_world \<Rightarrow> ParsedPrompt \<Rightarrow> fetch_state \<Rightarrow> (error + unit) \<times> fetch_state" where
  "fetchViaGitToFile w parsedPrompt st =
     (case buildGitUrl parsedPrompt of
        Inl e \<Rightarrow> (Inl e, cleanupDirectory (tempDir w) st)
      | Inr repoUrl \<Rightarrow>
          (case executeGitCommand w [''clone'', ''--depth'', ''1'', repoUrl, tempDir w] st of
             (Inl e, st1) \<Rightarrow> (Inl e, cleanupDirectory (tempDir w) st1)
           | (Inr u, st1) \<Rightarrow>
               (case p_filePath parsedPrompt of
                  None \<Rightarrow>
                    (Inl (Error (''The '' @ [CHR 0x22] @ ''path'' @ [CHR 0x22]
                           @ '' argument must be of type string. Received undefined'')),
                     cleanupDirectory (tempDir w) st1)
                | Some filePath \<Rightarrow>
                    (case storePromptInStorage w (SourceFile (pathJoin (tempDir w) filePath))
                            (p_name parsedPrompt) st1 of
                       (r, st2) \<Rightarrow> (r, cleanupDirectory (tempDir w) st2)))))"

text \<open>
  \<^verbatim>\<open>fetchWithFallbackStrategyToFile\<close> (lines 170-188). \<open>tier1Headers\<close> is lines 172-179,
  \<open>fetchRawFile\<close> is the body of the \<^verbatim>\<open>try\<close>, and the \<^verbatim>\<open>catch\<close> runs the clone.
\<close>

definition tier1Headers :: "fetch_world \<Rightarrow> ParsedPrompt \<Rightarrow> error + (string \<times> string) list" where
  "tier1Headers w parsedPrompt =
     (if p_type parsedPrompt = Ado then getADOAuthHeaders w else Inr [])"

definition fetchRawFile ::
  "fetch_world \<Rightarrow> string \<Rightarrow> ParsedPrompt \<Rightarrow> fetch_state \<Rightarrow> (error + unit) \<times> fetch_state" where
  "fetchRawFile w rawUrl parsedPrompt st =
     (case tier1Headers w parsedPrompt of
        Inl e \<Rightarrow> (Inl e, st)
      | Inr headers \<Rightarrow>
          (case fetchViaHttp w rawUrl headers of
             Inl e \<Rightarrow> (Inl e, record_event (HttpGet rawUrl headers) st)
           | Inr content \<Rightarrow>
               storePromptInStorage w (Content content) (p_name parsedPrompt)
                 (record_event (HttpGet rawUrl headers) st)))"

definition fetchWithFallbackStrategyToFile ::
  "fetch_world \<Rightarrow> ParsedPrompt \<Rightarrow> fetch_state \<Rightarrow> (error + unit) \<times> fetch_state" where
  "fetchWithFallbackStrategyToFile w parsedPrompt st =
     (case buildRawFileUrl parsedPrompt of
        Inl e \<Rightarrow> (Inl e, st)
      | Inr rawUrl \<Rightarrow>
          (case fetchRawFile w rawUrl parsedPrompt st of
             (Inr u, st1) \<Rightarrow> (Inr u, st1)
           | (Inl e, st1) \<Rightarrow> fetchViaGitToFile w parsedPrompt st1))"

text \<open>
  An example: a GitHub address whose raw URL answers with a sign-in page, while the clone
  holds the prompt file.
\<close>

definition examplePrompt :: ParsedPrompt where
  "examplePrompt =
     (emptyPrompt Github ''code-review'')
       \<lparr>p_owner := Some ''acme'', p_repo := Some ''prompts'',
        p_filePath := Some ''code-review.prompt.md''\<rparr>"

definition signInWorld :: fetch_world where
  "signInWorld =
     \<lparr>adoSession = Inr ''token'',
      httpFetch = (\<lambda>u h. FetchResponse True 200 ''OK'' ''<html><body>Sign in</body></html>''),
      gitProcess = (\<lambda>a. GitClosed (Some 0) [] [(''code-review.prompt.md'', ''Review the code'')]),
      tempDir = ''/tmp/promptu-1'',
      globalStoragePath = ''/storage'',
      directoryFailure = None,
      fileWriteFailure = None,
      fileCopyFailure = None\<rparr>"

definition emptyDisk :: fetch_state where
  "emptyDisk = \<lparr>files = Map.empty, promptFilesLocations = Map.empty, fetchLog = []\<rparr>"

section \<open>The canonical name as the specification words it\<close>

text \<open>
  The specification of \<^verbatim>\<open>getPromptName\<close>: split on \<open>/\<close>, \<open>\\<close> and \<open>:\<close>, take the last
  segment, and when it ends with \<open>.prompt.md\<close> strip exactly that trailing suffix,
  otherwise strip the last extension. This definition follows the specification, not the
  source; it is compared with \<open>getPromptName\<close> below.
\<close>

definition specPromptName :: "string \<Rightarrow> string" where
  "specPromptName prompt =
     (let lastPart = last (str_split (\<lambda>c. c = CHR ''/'' \<or> c = CHR 0x5C \<or> c = CHR '':'') prompt)
      in if endsWith lastPart ''.prompt.md''
         then take (length lastPart - length ''.prompt.md'') lastPart
         else replaceLastExtension lastPart)"

section \<open>Properties of the address parser\<close>

lemma endsWith_suffix: "endsWith s p \<longleftrightarrow> suffix p s"
  unfolding endsWith_def
  by (metis suffix_drop suffix_length_le suffix_take append_take_drop_id append_eq_conv_conj)

lemma addDefaultExtension_suffix:
  "addDefaultExtension path =
     (if suffix ''.prompt.md'' path \<or> suffix ''.md'' path \<or> suffix ''.txt'' path
         \<or> suffix ''.json'' path
      then path else path @ ''.prompt.md'')"
  by (simp add: addDefaultExtension_def extensions_def endsWith_suffix)

text \<open>
  C6. \<open>addDefaultExtension\<close> returns the path unchanged when it ends in one of
  \<open>.prompt.md\<close>, \<open>.md\<close>, \<open>.txt\<close>, \<open>.json\<close>, and otherwise appends \<open>.prompt.md\<close> to it
  as it is, also after an extension that is not in the list: \<open>name.xyz\<close> becomes
  \<open>name.xyz.prompt.md\<close>.
\<close>

theorem addDefaultExtension_recognized:
  "addDefaultExtension path =
     (if suffix ''.prompt.md'' path \<or> suffix ''.md'' path \<or> suffix ''.txt'' path
         \<or> suffix ''.json'' path
      then path else path @ ''.prompt.md'') \<and>
   addDefaultExtension ''name.xyz'' = ''name.xyz.prompt.md''"
proof
  show "addDefaultExtension path =
     (if suffix ''.prompt.md'' path \<or> suffix ''.md'' path \<or> suffix ''.txt'' path
         \<or> suffix ''.json'' path
      then path else path @ ''.prompt.md'')"
    by (rule addDefaultExtension_suffix)
  show "addDefaultExtension ''name.xyz'' = ''name.xyz.prompt.md''"
    by (simp add: addDefaultExtension_def extensions_def endsWith_def)
qed

text \<open>
  C9. \<open>addDefaultExtension\<close> is idempotent on every string: its result always ends in a
  recognized suffix, so a second application returns it unchanged.
\<close>

theorem addDefaultExtension_idempotent:
  "addDefaultExtension (addDefaultExtension path) = addDefaultExtension path \<and>
   list_ex (\<lambda>ext. endsWith (addDefaultExtension path) ext) extensions"
proof
  show "addDefaultExtension (addDefaultExtension path) = addDefaultExtension path"
    by (simp add: addDefaultExtension_suffix suffix_def)
  show "list_ex (\<lambda>ext. endsWith (addDefaultExtension path) ext) extensions"
    by (simp add: addDefaultExtension_suffix extensions_def endsWith_suffix suffix_def)
qed

lemma str_split_mcp:
  "str_split (\<lambda>c. c = CHR ''.'') (''mcp.'' @ rest)
   = ''mcp'' # str_split (\<lambda>c. c = CHR ''.'') rest"
  by (simp split: list.splits)

lemma parsePrompt_mcp_prefix:
  "parsePrompt (''mcp.'' @ rest) =
     (if length (str_split (\<lambda>c. c = CHR ''.'') rest) = 2
      then Inr (emptyPrompt Mcp (''mcp.'' @ rest))
      else Inl (Error ''Invalid MCP prompt format. Expected: mcp.ServerName.PromptName''))"
  using str_split_mcp [of rest]
  by (simp add: parsePrompt_def startsWith_def Let_def del: str_split.simps)

text \<open>
  C4. A string that begins with \<open>mcp.\<close> parses exactly when what follows the prefix has
  two dot-separated segments; the result is then the \<open>Mcp\<close> variant whose name is the
  whole original string, and otherwise the parse fails with the malformed-address error
  (\<open>Invalid MCP prompt format\<close>). So \<open>mcp.server.prompt\<close> parses, and \<open>mcp.onlyone\<close> and
  \<open>mcp.a.b.c\<close> fail.
\<close>

theorem parsePrompt_mcp:
  "parsePrompt (''mcp.'' @ rest) =
     (if length (str_split (\<lambda>c. c = CHR ''.'') rest) = 2
      then Inr (emptyPrompt Mcp (''mcp.'' @ rest))
      else Inl (Error ''Invalid MCP prompt format. Expected: mcp.ServerName.PromptName'')) \<and>
   p_type (emptyPrompt Mcp (''mcp.'' @ rest)) = Mcp \<and>
   p_name (emptyPrompt Mcp (''mcp.'' @ rest)) = ''mcp.'' @ rest \<and>
   parsePrompt ''mcp.server.prompt'' = Inr (emptyPrompt Mcp ''mcp.server.prompt'') \<and>
   parsePrompt ''mcp.onlyone''
     = Inl (Error ''Invalid MCP prompt format. Expected: mcp.ServerName.PromptName'') \<and>
   parsePrompt ''mcp.a.b.c''
     = Inl (Error ''Invalid MCP prompt format. Expected: mcp.ServerName.PromptName'')"
proof (intro conjI)
  show "parsePrompt (''mcp.'' @ rest) =
     (if length (str_split (\<lambda>c. c = CHR ''.'') rest) = 2
      then Inr (emptyPrompt Mcp (''mcp.'' @ rest))
      else Inl (Error ''Invalid MCP prompt format. Expected: mcp.ServerName.PromptName''))"
    by (rule parsePrompt_mcp_prefix)
  show "p_type (emptyPrompt Mcp (''mcp.'' @ rest)) = Mcp"
    by (simp add: emptyPrompt_def)
  show "p_name (emptyPrompt Mcp (''mcp.'' @ rest)) = ''mcp.'' @ rest"
    by (simp add: emptyPrompt_def)
  show "parsePrompt ''mcp.server.prompt'' = Inr (emptyPrompt Mcp ''mcp.server.prompt'')"
    by (simp add: parsePrompt_def startsWith_def)
  show "parsePrompt ''mcp.onlyone''
     = Inl (Error ''Invalid MCP prompt format. Expected: mcp.ServerName.PromptName'')"
    by (simp add: parsePrompt_def startsWith_def)
  show "parsePrompt ''mcp.a.b.c''
     = Inl (Error ''Invalid MCP prompt format. Expected: mcp.ServerName.PromptName'')"
    by (simp add: parsePrompt_def startsWith_def)
qed

text \<open>The three names of the specification come out as it says.\<close>

lemma getPromptName_examples:
  "getPromptName ''gh:owner/repo/path/to/my-prompt.md'' = ''my-prompt''"
  "getPromptName ''a/b/c.prompt.md'' = ''c''"
  "getPromptName ''simple-name'' = ''simple-name''"
  by (simp_all add: getPromptName_def startsWith_def endsWith_def)

text \<open>
  C5. \<open>getPromptName\<close> is to strip exactly the trailing \<open>.prompt.md\<close> of the last
  segment. The source calls \<^verbatim>\<open>lastPart.replace('.prompt.md', '')\<close>, which removes the first
  occurrence: for \<open>a/notes.prompt.md.v2.prompt.md\<close> the last segment ends with the compound
  suffix, the result is \<open>notes.v2.prompt.md\<close>, and stripping the trailing suffix would
  have given \<open>notes.prompt.md.v2\<close>.
\<close>

theorem getPromptName_removes_first_occurrence:
  "getPromptName ''a/notes.prompt.md.v2.prompt.md'' = ''notes.v2.prompt.md'' \<and>
   specPromptName ''a/notes.prompt.md.v2.prompt.md'' = ''notes.prompt.md.v2'' \<and>
   getPromptName ''a/notes.prompt.md.v2.prompt.md''
     \<noteq> specPromptName ''a/notes.prompt.md.v2.prompt.md''"
  by (simp add: getPromptName_def specPromptName_def startsWith_def endsWith_def)

section \<open>Properties of the version comparison\<close>

lemma pushZeros_eq: "pushZeros n xs = padRight n xs"
proof (induction n xs rule: pushZeros.induct)
  case (1 maxLength parts)
  show ?case
  proof (cases "length parts < maxLength")
    case True
    then have "maxLength - length parts = Suc (maxLength - Suc (length parts))" by simp
    then have "padRight maxLength parts = padRight maxLength (parts @ [0])"
      by (simp add: padRight_def replicate_append_same)
    with True 1 show ?thesis by (subst pushZeros.simps) simp
  next
    case False
    then show ?thesis by (subst pushZeros.simps) (simp add: padRight_def)
  qed
qed

lemma compareLoop_drop:
  "i \<le> n \<Longrightarrow> length a = n \<Longrightarrow> length b = n \<Longrightarrow>
   compareLoop i n a b = firstInequality (drop i a) (drop i b)"
proof (induction i n a b rule: compareLoop.induct)
  case (1 i n a b)
  show ?case
  proof (cases "i < n")
    case True
    then have da: "drop i a = a ! i # drop (Suc i) a" and db: "drop i b = b ! i # drop (Suc i) b"
      using 1 by (simp_all add: Cons_nth_drop_Suc)
    show ?thesis
      using True 1 by (subst compareLoop.simps) (simp add: da db)
  next
    case False
    then show ?thesis using 1 by (subst compareLoop.simps) simp
  qed
qed

lemma length_padRight: "length (padRight n xs) = max n (length xs)"
  by (simp add: padRight_def)

lemma comparePadded_eq:
  "comparePadded xs ys =
     firstInequality (padRight (max (length xs) (length ys)) xs)
       (padRight (max (length xs) (length ys)) ys)"
  using compareLoop_drop [of 0 "max (length xs) (length ys)"
      "padRight (max (length xs) (length ys)) xs" "padRight (max (length xs) (length ys)) ys"]
  by (simp add: comparePadded_def Let_def pushZeros_eq length_padRight)

lemma firstInequality_zeros: "firstInequality (replicate k 0) (replicate k 0) = None"
  by (induction k) simp_all

lemma firstInequality_append_zeros:
  "length us = length vs \<Longrightarrow>
   firstInequality (us @ replicate k 0) (vs @ replicate k 0) = firstInequality us vs"
  by (induction us vs rule: list_induct2) (simp_all add: firstInequality_zeros)

lemma padRight_more:
  assumes "length xs \<le> m" "m \<le> m'"
  shows "padRight m' xs = padRight m xs @ replicate (m' - m) 0"
proof -
  from assms have "m' - length xs = (m - length xs) + (m' - m)" by arith
  then show ?thesis by (simp add: padRight_def replicate_add)
qed

lemma padRight_append_zeros:
  assumes "length xs + k \<le> m"
  shows "padRight m (xs @ replicate k 0) = padRight m xs"
proof -
  from assms have "m - length xs = k + (m - (length xs + k))" by arith
  then show ?thesis by (simp add: padRight_def replicate_add)
qed

lemma comparePadded_zeros_left: "comparePadded (xs @ replicate k 0) ys = comparePadded xs ys"
proof -
  define m where "m = max (length xs) (length ys)"
  define m' where "m' = max (length xs + k) (length ys)"
  have le: "length xs \<le> m" "length ys \<le> m" "m \<le> m'" "length xs + k \<le> m'"
    by (simp_all add: m_def m'_def)
  have "comparePadded (xs @ replicate k 0) ys
        = firstInequality (padRight m' (xs @ replicate k 0)) (padRight m' ys)"
    unfolding comparePadded_eq m'_def by simp
  also have "\<dots> = firstInequality (padRight m' xs) (padRight m' ys)"
    using padRight_append_zeros [OF le(4)] by simp
  also have "\<dots> = firstInequality (padRight m xs @ replicate (m' - m) 0)
                     (padRight m ys @ replicate (m' - m) 0)"
    using padRight_more [OF le(1,3)] padRight_more [OF le(2,3)] by simp
  also have "\<dots> = firstInequality (padRight m xs) (padRight m ys)"
    using le by (intro firstInequality_append_zeros) (simp add: length_padRight max_def)
  also have "\<dots> = comparePadded xs ys"
    unfolding comparePadded_eq m_def ..
  finally show ?thesis .
qed

lemma comparePadded_zeros_right: "comparePadded xs (ys @ replicate k 0) = comparePadded xs ys"
proof -
  define m where "m = max (length xs) (length ys)"
  define m' where "m' = max (length xs) (length ys + k)"
  have le: "length xs \<le> m" "length ys \<le> m" "m \<le> m'" "length ys + k \<le> m'"
    by (simp_all add: m_def m'_def)
  have "comparePadded xs (ys @ replicate k 0)
        = firstInequality (padRight m' xs) (padRight m' (ys @ replicate k 0))"
    unfolding comparePadded_eq m'_def by simp
  also have "\<dots> = firstInequality (padRight m' xs) (padRight m' ys)"
    using padRight_append_zeros [OF le(4)] by simp
  also have "\<dots> = firstInequality (padRight m xs @ replicate (m' - m) 0)
                     (padRight m ys @ replicate (m' - m) 0)"
    using padRight_more [OF le(1,3)] padRight_more [OF le(2,3)] by simp
  also have "\<dots> = firstInequality (padRight m xs) (padRight m ys)"
    using le by (intro firstInequality_append_zeros) (simp add: length_padRight max_def)
  also have "\<dots> = comparePadded xs ys"
    unfolding comparePadded_eq m_def ..
  finally show ?thesis .
qed

lemma firstInequality_refl: "firstInequality xs xs = None"
  by (induction xs) simp_all

lemma comparePadded_refl: "comparePadded xs xs = None"
  by (simp add: comparePadded_eq firstInequality_refl)

lemma str_split_nonempty: "str_split sep s \<noteq> []"
  by (induction s) (auto split: list.splits)

lemma hd_str_split: "hd (str_split sep s) = takeWhile (\<lambda>c. \<not> sep c) s"
  by (induction s) (auto split: list.splits simp: str_split_nonempty)

lemma cleanVersion_eq:
  "cleanVersion v = takeWhile (\<lambda>c. c \<noteq> CHR ''+'') (takeWhile (\<lambda>c. c \<noteq> CHR ''-'') v)"
  by (simp add: cleanVersion_def hd_str_split)

lemma str_includes_char: "str_includes s [c] \<longleftrightarrow> c \<in> set s"
  by (induction s) (auto simp: startsWith_def)

lemma takeWhile_absent:
  "c \<notin> set xs \<Longrightarrow> takeWhile (\<lambda>x. x \<noteq> c) (xs @ ys) = xs @ takeWhile (\<lambda>x. x \<noteq> c) ys"
  by (induction xs) auto

lemma cleanVersion_core:
  assumes "CHR ''-'' \<notin> set core" "CHR ''+'' \<notin> set core"
  shows "cleanVersion (core @ ''+'' @ meta) = core" "cleanVersion core = core"
proof -
  have "takeWhile (\<lambda>c. c \<noteq> CHR ''-'') (core @ CHR ''+'' # meta)
        = core @ CHR ''+'' # takeWhile (\<lambda>c. c \<noteq> CHR ''-'') meta"
    using takeWhile_absent [OF assms(1)] by simp
  moreover have "takeWhile (\<lambda>c. c \<noteq> CHR ''+'') (core @ CHR ''+'' # rest) = core" for rest
    using takeWhile_absent [OF assms(2)] by simp
  ultimately show "cleanVersion (core @ ''+'' @ meta) = core" by (simp add: cleanVersion_eq)
  have "takeWhile (\<lambda>c. c \<noteq> CHR ''-'') core = core" "takeWhile (\<lambda>c. c \<noteq> CHR ''+'') core = core"
    using assms by auto
  then show "cleanVersion core = core" by (simp only: cleanVersion_eq)
qed

lemma prerelease_tie_break:
  "comparePadded (versionParts installed) (versionParts required) = None \<Longrightarrow>
   isVersionSufficient installed required =
     (if CHR ''-'' \<in> set installed then CHR ''-'' \<in> set required else True)"
  by (simp add: isVersionSufficient_def Let_def str_includes_char)

lemma isVersionSufficient_examples:
  "isVersionSufficient ''1.2.3'' ''1.2.3''"
  "isVersionSufficient ''2.0.0'' ''1.9.9''"
  "isVersionSufficient ''1.0.0'' ''1.0.0-alpha''"
  "isVersionSufficient ''1.2'' ''1.2.0''"
  "\<not> isVersionSufficient ''1.2.2'' ''1.2.3''"
  "\<not> isVersionSufficient ''1.0.0-alpha'' ''1.0.0''"
  "isVersionSufficient ''1.2.0'' ''1.2''"
  "isVersionSufficient ''1.2.3.4'' ''1.2.3.3''"
  "\<not> isVersionSufficient ''1.2.3.2'' ''1.2.3.3''"
  by code_simp+

text \<open>
  C3. \<open>isVersionSufficient\<close> is true for (1.2.3, 1.2.3), (2.0.0, 1.9.9),
  (1.0.0, 1.0.0-alpha) and (1.2, 1.2.0), and false for (1.2.2, 1.2.3) and
  (1.0.0-alpha, 1.0.0). For every pair of version strings the two loops leave each list
  of segments followed by zeros up to the common length, the outcome is the first strict
  inequality of the padded lists (the pre-release rule when there is none), and zero
  segments added at the end of either list change nothing: versions of two, three, four or
  more segments are compared alike.
\<close>

theorem isVersionSufficient_padding:
  "isVersionSufficient ''1.2.3'' ''1.2.3'' \<and>
   isVersionSufficient ''2.0.0'' ''1.9.9'' \<and>
   isVersionSufficient ''1.0.0'' ''1.0.0-alpha'' \<and>
   isVersionSufficient ''1.2'' ''1.2.0'' \<and>
   \<not> isVersionSufficient ''1.2.2'' ''1.2.3'' \<and>
   \<not> isVersionSufficient ''1.0.0-alpha'' ''1.0.0'' \<and>
   isVersionSufficient ''1.2.3.4'' ''1.2.3.3'' \<and>
   \<not> isVersionSufficient ''1.2.3.2'' ''1.2.3.3'' \<and>
   pushZeros n parts = parts @ replicate (n - length parts) 0 \<and>
   isVersionSufficient installed required =
     (case firstInequality
             (padRight (max (length (versionParts installed)) (length (versionParts required)))
                (versionParts installed))
             (padRight (max (length (versionParts installed)) (length (versionParts required)))
                (versionParts required)) of
        Some decided \<Rightarrow> decided
      | None \<Rightarrow> (if str_includes installed ''-'' then str_includes required ''-'' else True)) \<and>
   comparePadded (xs @ replicate k 0) ys = comparePadded xs ys \<and>
   comparePadded xs (ys @ replicate k 0) = comparePadded xs ys"
proof (intro conjI)
  show "pushZeros n parts = parts @ replicate (n - length parts) 0"
    by (simp add: pushZeros_eq padRight_def)
  show "isVersionSufficient installed required =
     (case firstInequality
             (padRight (max (length (versionParts installed)) (length (versionParts required)))
                (versionParts installed))
             (padRight (max (length (versionParts installed)) (length (versionParts required)))
                (versionParts required)) of
        Some decided \<Rightarrow> decided
      | None \<Rightarrow> (if str_includes installed ''-'' then str_includes required ''-'' else True))"
    by (simp add: isVersionSufficient_def comparePadded_eq Let_def split: option.splits)
  show "comparePadded (xs @ replicate k 0) ys = comparePadded xs ys"
    by (rule comparePadded_zeros_left)
  show "comparePadded xs (ys @ replicate k 0) = comparePadded xs ys"
    by (rule comparePadded_zeros_right)
qed (rule isVersionSufficient_examples)+

text \<open>
  C10. The pre-release rule looks for \<open>-\<close> anywhere in the original string, build
  metadata included. When the core segments are equal, the result is decided by whether
  each whole string contains a hyphen; so an installed version made of a core, \<open>+\<close>, and
  build metadata with a hyphen in it does not satisfy the same core as requirement:
  \<open>1.0.0+build-1\<close> against \<open>1.0.0\<close> is false.
\<close>

theorem prerelease_hyphen_in_build_metadata:
  "(comparePadded (versionParts installed) (versionParts required) = None \<longrightarrow>
      isVersionSufficient installed required =
        (if CHR ''-'' \<in> set installed then CHR ''-'' \<in> set required else True)) \<and>
   (CHR ''-'' \<notin> set core \<and> CHR ''+'' \<notin> set core \<and> CHR ''-'' \<in> set meta \<longrightarrow>
      \<not> isVersionSufficient (core @ ''+'' @ meta) core)"
proof (intro conjI impI)
  assume "comparePadded (versionParts installed) (versionParts required) = None"
  then show "isVersionSufficient installed required =
        (if CHR ''-'' \<in> set installed then CHR ''-'' \<in> set required else True)"
    by (rule prerelease_tie_break)
next
  assume a: "CHR ''-'' \<notin> set core \<and> CHR ''+'' \<notin> set core \<and> CHR ''-'' \<in> set meta"
  then have m: "CHR ''-'' \<notin> set core" and p: "CHR ''+'' \<notin> set core" by simp_all
  have "versionParts (core @ ''+'' @ meta) = versionParts core"
    unfolding versionParts_def cleanVersion_core [OF m p] ..
  then have "comparePadded (versionParts (core @ ''+'' @ meta)) (versionParts core) = None"
    by (simp add: comparePadded_refl)
  from prerelease_tie_break [OF this] a show "\<not> isVersionSufficient (core @ ''+'' @ meta) core"
    by simp
qed

theorem prerelease_hyphen_in_build_metadata_witness:
  "comparePadded (versionParts ''1.0.0+build-1'') (versionParts ''1.0.0'') = None \<and>
   CHR ''-'' \<notin> set ''1.0.0'' \<and> CHR ''+'' \<notin> set ''1.0.0'' \<and> CHR ''-'' \<in> set ''build-1'' \<and>
   isVersionSufficient ''1.0.0+build-1'' ''1.0.0''
     = (if CHR ''-'' \<in> set ''1.0.0+build-1'' then CHR ''-'' \<in> set ''1.0.0'' else True) \<and>
   \<not> isVersionSufficient ''1.0.0+build-1'' ''1.0.0''"
proof -
  have eq: "comparePadded (versionParts ''1.0.0+build-1'') (versionParts ''1.0.0'') = None"
    by code_simp
  have chars: "CHR ''-'' \<notin> set ''1.0.0'' \<and> CHR ''+'' \<notin> set ''1.0.0'' \<and> CHR ''-'' \<in> set ''build-1''"
    by simp
  from prerelease_hyphen_in_build_metadata
    [of "''1.0.0+build-1''" "''1.0.0''" "''1.0.0''" "''build-1''"] eq chars
  show ?thesis by simp
qed

section \<open>Properties of the installer\<close>

lemma emit_simps [simp]:
  "events (emit e st) = events st @ [e]" "mcpFile (emit e st) = mcpFile st"
  by (simp_all add: emit_def)

lemma installNuGetGlobalTool_events:
  assumes "installNuGetGlobalTool w x st = (r, st1)"
  shows "\<exists>q. events st1 = events st @ q \<and> mcpFile st1 = mcpFile st \<and> list_all quietEvent q"
  using assms by (auto simp: installNuGetGlobalTool_def Let_def split: if_splits)

lemma confirmAndInstallNuGet_cases:
  assumes "confirmAndInstallNuGet w x c st = (r1, c1, st1)"
  shows "mcpFile st1 = mcpFile st \<and>
    ((r1 = Inr \<lparr>cancelled = True, configModified = False\<rparr> \<and> c1 = c \<and>
        events st1 = events st @ [Confirmation x False]) \<or>
     (r1 = Inr \<lparr>cancelled = False, configModified = True\<rparr> \<and> c1 = addServerToConfig c x \<and>
        (\<exists>q. events st1 = events st @ q @ [AddedToConfig (s_name x)] \<and> list_all quietEvent q)) \<or>
     ((\<exists>e. r1 = Inl e) \<and> (\<exists>q. events st1 = events st @ q \<and> list_all quietEvent q)))"
proof (cases "installationConfirmation w (events st) x")
  case False
  with assms show ?thesis by (auto simp: confirmAndInstallNuGet_def Let_def)
next
  case True
  obtain r2 st2 where t: "installNuGetGlobalTool w x (emit (Confirmation x True) st) = (r2, st2)"
    by (cases "installNuGetGlobalTool w x (emit (Confirmation x True) st)") auto
  from installNuGetGlobalTool_events [OF t] obtain q where
    q: "events st2 = events st @ Confirmation x True # q" "mcpFile st2 = mcpFile st" "list_all quietEvent q"
    by auto
  show ?thesis
  proof (cases r2)
    case (Inl e)
    with assms True t q show ?thesis
      by (auto simp: confirmAndInstallNuGet_def Let_def)
  next
    case (Inr u)
    with assms True t q have "r1 = Inr \<lparr>cancelled = False, configModified = True\<rparr>"
      "c1 = addServerToConfig c x" "mcpFile st1 = mcpFile st"
      "events st1 = events st @ (Confirmation x True # q) @ [AddedToConfig (s_name x)]"
      by (auto simp: confirmAndInstallNuGet_def Let_def)
    moreover have "list_all quietEvent (Confirmation x True # q)" using q by simp
    ultimately show ?thesis by blast
  qed
qed


lemma installServerConfig_cases:
  assumes "installServerConfig w x c st = (r1, c1, st1)"
  shows "mcpFile st1 = mcpFile st \<and>
    ((r1 = Inr \<lparr>cancelled = False, configModified = False\<rparr> \<and> c1 = c \<and> events st1 = events st) \<or>
     (r1 = Inr \<lparr>cancelled = True, configModified = False\<rparr> \<and> c1 = c \<and>
        events st1 = events st @ [Confirmation x False]) \<or>
     (r1 = Inr \<lparr>cancelled = False, configModified = True\<rparr> \<and> c1 = addServerToConfig c x \<and>
        events st1 = events st @ [Confirmation x True] @ [AddedToConfig (s_name x)]))"
  using assms by (auto simp: installServerConfig_def Let_def split: if_splits)

lemma installOne_cases:
  assumes "installOne w x c st = (r1, c1, st1)"
  shows "mcpFile st1 = mcpFile st \<and> (\<exists>q. list_all quietEvent q \<and>
     ((r1 = Inr \<lparr>cancelled = False, configModified = False\<rparr> \<and> c1 = c \<and>
         events st1 = events st @ q) \<or>
      (r1 = Inr \<lparr>cancelled = True, configModified = False\<rparr> \<and> c1 = c \<and>
         events st1 = events st @ q @ [Confirmation x False]) \<or>
      (r1 = Inr \<lparr>cancelled = False, configModified = True\<rparr> \<and> c1 = addServerToConfig c x \<and>
         events st1 = events st @ q @ [AddedToConfig (s_name x)]) \<or>
      ((\<exists>e. r1 = Inl e) \<and> events st1 = events st @ q)))"
proof (cases "truthy (s_nugetPackage x)")
  case False
  with assms have "installServerConfig w x c st = (r1, c1, st1)" by (simp add: installOne_def)
  from installServerConfig_cases [OF this] show ?thesis
    apply (elim conjE disjE)
      apply (intro conjI, assumption, rule exI [of _ "[]"], simp)
     apply (intro conjI, assumption, rule exI [of _ "[]"], simp)
    apply (intro conjI, assumption, rule exI [of _ "[Confirmation x True]"], simp)
    done
next
  case True
  with assms have n: "installNuGetForServer w x c st = (r1, c1, st1)" by (simp add: installOne_def)
  show ?thesis
  proof (cases "truthy (s_version x)")
    case False
    with n True have "confirmAndInstallNuGet w x c st = (r1, c1, st1)"
      by (simp add: installNuGetForServer_def)
    from confirmAndInstallNuGet_cases [OF this] show ?thesis
      apply (elim conjE disjE exE)
        apply (intro conjI, assumption, rule exI [of _ "[]"], simp)
       apply (intro conjI, assumption) subgoal for q by (rule exI [of _ q]) simp
      apply (intro conjI, assumption) subgoal for e q by (rule exI [of _ q]) simp
      done
  next
    case v: True
    let ?pkg = "strOf (s_nugetPackage x)"
    let ?st0 = "emit (NuGetVersionQuery ?pkg) st"
    show ?thesis
    proof (cases "truthy (nugetPackageVersion w (events st) ?pkg) \<and>
        isVersionSufficient (strOf (nugetPackageVersion w (events st) ?pkg)) (strOf (s_version x))")
      case True
      with n v \<open>truthy (s_nugetPackage x)\<close> show ?thesis
        by (intro conjI exI [of _ "[NuGetVersionQuery ?pkg]"])
           (auto simp: installNuGetForServer_def Let_def)
    next
      case False
      with n v \<open>truthy (s_nugetPackage x)\<close>
      have "confirmAndInstallNuGet w x c ?st0 = (r1, c1, st1)"
        by (auto simp: installNuGetForServer_def Let_def)
      from confirmAndInstallNuGet_cases [OF this] show ?thesis
        apply (elim conjE disjE exE)
          apply (intro conjI, simp, rule exI [of _ "[NuGetVersionQuery ?pkg]"], simp)
         apply (intro conjI, simp) subgoal for q by (rule exI [of _ "NuGetVersionQuery ?pkg # q"]) simp
        apply (intro conjI, simp) subgoal for e q by (rule exI [of _ "NuGetVersionQuery ?pkg # q"]) simp
        done
    qed
  qed
qed

lemma quiet_no_decline: "list_all quietEvent q \<Longrightarrow> Confirmation s False \<notin> set q"
  by (auto simp: list_all_iff)

lemma quiet_no_write: "list_all quietEvent q \<Longrightarrow> filter isWrite q = []"
  by (induction q) (auto elim: quietEvent.elims)


lemma writeMcpConfig_events:
  "writeMcpConfig w c st = (r, st') \<Longrightarrow> events st' = events st @ [WriteMcpConfig c]"
  by (auto simp: writeMcpConfig_def split: option.splits)

lemma installLoop_extends:
  "installLoop w xs c n st = (r, st') \<Longrightarrow> \<exists>new. events st' = events st @ new"
proof (induction xs arbitrary: c n st)
  case Nil
  then show ?case
    by (auto split: if_splits prod.splits sum.splits dest: writeMcpConfig_events)
next
  case (Cons x xs)
  obtain r1 c1 st1 where one: "installOne w x c st = (r1, c1, st1)"
    by (cases "installOne w x c st") auto
  from installOne_cases [OF one] obtain n1 where n1: "events st1 = events st @ n1"
    by auto
  show ?case
  proof (cases "\<exists>res. r1 = Inr res \<and> \<not> cancelled res")
    case True
    then obtain res where res: "r1 = Inr res" "\<not> cancelled res" by auto
    with Cons.prems one
    have "installLoop w xs c1 (if configModified res then True else n) st1 = (r, st')" by simp
    from Cons.IH [OF this] n1 show ?thesis by auto
  next
    case False
    with Cons.prems one have "st' = st1"
      by (cases r1) (auto split: error.splits if_splits)
    with n1 show ?thesis by auto
  qed
qed


lemma installLoop_decline:
  assumes "installLoop w xs c n st = (r, st')"
      and "events st' = events st @ new"
      and "Confirmation s False \<in> set new"
  shows "r = Inr False \<and> mcpFile st' = mcpFile st \<and> filter isWrite new = [] \<and>
         last new = Confirmation s False \<and>
         (\<exists>pre post. xs = pre @ s # post \<and>
            (\<forall>post'. installLoop w (pre @ s # post') c n st = (Inr False, st')))"
  using assms
proof (induction xs arbitrary: c n st new)
  case Nil
  have "new = [] \<or> new = [WriteMcpConfig c]"
    using Nil.prems(1,2)
    by (auto split: if_splits prod.splits sum.splits dest: writeMcpConfig_events)
  with Nil.prems(3) show ?case by auto
next
  case (Cons x xs)
  obtain r1 c1 st1 where one: "installOne w x c st = (r1, c1, st1)"
    by (cases "installOne w x c st") auto
  from installOne_cases [OF one] obtain q where
    file1: "mcpFile st1 = mcpFile st" and q: "list_all quietEvent q" and
    shape: "(r1 = Inr \<lparr>cancelled = False, configModified = False\<rparr> \<and> c1 = c \<and>
         events st1 = events st @ q) \<or>
      (r1 = Inr \<lparr>cancelled = True, configModified = False\<rparr> \<and> c1 = c \<and>
         events st1 = events st @ q @ [Confirmation x False]) \<or>
      (r1 = Inr \<lparr>cancelled = False, configModified = True\<rparr> \<and> c1 = addServerToConfig c x \<and>
         events st1 = events st @ q @ [AddedToConfig (s_name x)]) \<or>
      ((\<exists>e. r1 = Inl e) \<and> events st1 = events st @ q)"
    by blast
  note nd = quiet_no_decline [OF q] and nw = quiet_no_write [OF q]
  have continue: ?case
    if res: "r1 = Inr res" "\<not> cancelled res" and ev1: "events st1 = events st @ n1"
      and n1: "Confirmation s False \<notin> set n1" "filter isWrite n1 = []" for res n1
  proof -
    from res Cons.prems(1) one
    have loop: "installLoop w xs c1 (if configModified res then True else n) st1 = (r, st')"
      by simp
    from installLoop_extends [OF loop] obtain n2 where n2: "events st' = events st1 @ n2" by auto
    with ev1 Cons.prems(2) have new: "new = n1 @ n2" by simp
    with n1 Cons.prems(3) have "Confirmation s False \<in> set n2" by auto
    from Cons.IH [OF loop n2 this] obtain pre post where
      ih: "r = Inr False" "mcpFile st' = mcpFile st1" "filter isWrite n2 = []"
        "last n2 = Confirmation s False" "xs = pre @ s # post"
        "\<forall>post'. installLoop w (pre @ s # post') c1 (if configModified res then True else n) st1
            = (Inr False, st')"
      by blast
    have "n2 \<noteq> []" using \<open>Confirmation s False \<in> set n2\<close> by auto
    then have "last new = Confirmation s False" using new ih(4) by simp
    moreover have "x # xs = (x # pre) @ s # post" using ih(5) by simp
    moreover have "\<forall>post'. installLoop w ((x # pre) @ s # post') c n st = (Inr False, st')"
      using ih(6) one res by simp
    ultimately show ?thesis
      using ih(1,2,3) file1 new n1 by (metis filter_append append_Nil)
  qed
  from shape show ?case
  proof (elim disjE conjE exE)
    assume "r1 = Inr \<lparr>cancelled = False, configModified = False\<rparr>" "events st1 = events st @ q"
    then show ?case using continue [of "\<lparr>cancelled = False, configModified = False\<rparr>" q] nd nw
      by simp
  next
    assume a: "r1 = Inr \<lparr>cancelled = True, configModified = False\<rparr>"
      "events st1 = events st @ q @ [Confirmation x False]"
    with Cons.prems(1) one have r: "r = Inr False" "st' = st1" by auto
    with a Cons.prems(2) have new: "new = q @ [Confirmation x False]" by simp
    with Cons.prems(3) nd have sx: "s = x" by auto
    have "\<forall>post'. installLoop w ([] @ s # post') c n st = (Inr False, st')"
      using one a r sx by simp
    moreover have "x # xs = [] @ s # xs" using sx by simp
    ultimately show ?case using r new nw file1 sx by (metis filter.simps filter_append isWrite.simps(3) last_snoc append_Nil2)
  next
    assume "r1 = Inr \<lparr>cancelled = False, configModified = True\<rparr>"
      "events st1 = events st @ q @ [AddedToConfig (s_name x)]"
    then show ?case
      using continue [of "\<lparr>cancelled = False, configModified = True\<rparr>" "q @ [AddedToConfig (s_name x)]"] nd nw
      by simp
  next
    fix e assume a: "r1 = Inl e" "events st1 = events st @ q"
    with Cons.prems(1) one have "st' = st1" by (auto split: error.splits)
    with a Cons.prems(2) have "new = q" by simp
    with Cons.prems(3) nd show ?case by simp
  qed
qed



















lemma installServers_loop:
  "installServers w xs st = (r, st') \<Longrightarrow>
   (\<exists>e. r = Inl e \<and> st' = st \<and> readMcpConfig st = Inl e) \<or>
   (\<exists>read. readMcpConfig st = Inr read \<and>
      installLoop w xs (orEmptyConfig read) False st = (r, st'))"
  by (auto simp: installServers_def split: sum.splits)

lemma installServers_read:
  "readMcpConfig st = Inr read \<Longrightarrow>
   installServers w xs st = installLoop w xs (orEmptyConfig read) False st"
  by (simp add: installServers_def)



lemmas example_defs = exampleServer_def exampleTool_def decliningWorld_def acceptingWorld_def
  freshState_def installServers_def installOne_def installServerConfig_def
  installNuGetForServer_def confirmAndInstallNuGet_def installNuGetGlobalTool_def
  writeMcpConfig_def emit_def jsIn_def objectPrototypeKeys_def truthy_def strOf_def
  newEvents_def addServerToConfig_def assignServer_def readMcpConfig_def orEmptyConfig_def
  jsonContent_def installingWorld_def configuredState_def configuredConfig_def Let_def


text \<open>
  C2. When the user declines the confirmation for a descriptor of the batch, the batch is
  cancelled at once: \<open>installServers\<close> returns \<^verbatim>\<open>false\<close>, the declined confirmation is the
  last thing that happens, the mcp.json file is never written and holds what it held
  before, and whatever descriptors follow the declined one, the outcome is the same (none
  of them is looked at).
\<close>

theorem decline_cancels_batch:
  assumes "installServers w servers_list st = (r, st')"
      and "Confirmation s False \<in> set (newEvents st st')"
  shows "r = Inr False \<and> mcpFile st' = mcpFile st \<and>
         filter isWrite (newEvents st st') = [] \<and>
         last (newEvents st st') = Confirmation s False \<and>
         (\<exists>pre post. servers_list = pre @ s # post \<and>
            (\<forall>post'. installServers w (pre @ s # post') st = (Inr False, st')))"
proof -
  from installServers_loop [OF assms(1)] assms(2) obtain read where
    read: "readMcpConfig st = Inr read" and
    loop: "installLoop w servers_list (orEmptyConfig read) False st = (r, st')"
    by (auto simp: newEvents_def)
  from installLoop_extends [OF loop] obtain new where new: "events st' = events st @ new" by auto
  then have ne: "newEvents st st' = new" by (simp add: newEvents_def)
  from installLoop_decline [OF loop new] assms(2) ne show ?thesis
    by (simp add: installServers_read [OF read])
qed

theorem decline_cancels_batch_witness:
  "installServers decliningWorld [exampleServer ''first'', exampleServer ''second''] freshState
     = (Inr False, \<lparr>mcpFile = FileNotFound, events = [Confirmation (exampleServer ''first'') False]\<rparr>) \<and>
   Confirmation (exampleServer ''first'') False
     \<in> set (newEvents freshState
          \<lparr>mcpFile = FileNotFound, events = [Confirmation (exampleServer ''first'') False]\<rparr>) \<and>
   mcpFile \<lparr>mcpFile = FileNotFound, events = [Confirmation (exampleServer ''first'') False]\<rparr>
     = mcpFile freshState \<and>
   (\<exists>pre post. [exampleServer ''first'', exampleServer ''second''] = pre @ exampleServer ''first'' # post \<and>
      (\<forall>post'. installServers decliningWorld (pre @ exampleServer ''first'' # post') freshState
         = (Inr False, \<lparr>mcpFile = FileNotFound, events = [Confirmation (exampleServer ''first'') False]\<rparr>)))"
proof -
  let ?st = "\<lparr>mcpFile = FileNotFound, events = [Confirmation (exampleServer ''first'') False]\<rparr>"
  have run: "installServers decliningWorld [exampleServer ''first'', exampleServer ''second'']
      freshState = (Inr False, ?st)"
    by (simp add: example_defs)
  have dec: "Confirmation (exampleServer ''first'') False \<in> set (newEvents freshState ?st)"
    by (simp add: newEvents_def freshState_def)
  from decline_cancels_batch [OF run dec] run dec show ?thesis by blast
qed




section \<open>Properties of the prompt session\<close>

lemma connectClient_trace:
  assumes "connectClient w sn sc tr = (r1, tr1)"
  shows "(r1 = Inr () \<and> (\<exists>a b. tr1 = tr @ [Logged a, Connected sn, Logged b])) \<or>
         ((\<exists>e. r1 = Inl e) \<and> (\<exists>a. tr1 = tr @ [Logged a]))"
  using assms by (auto simp: connectClient_def Let_def split: option.splits if_splits)

lemma createClient_trace:
  assumes "createClient w sn sc tr = (r1, tr1)"
  shows "(r1 = Inr () \<and> (\<exists>a b. tr1 = tr @ [Logged a, Connected sn, Logged b])) \<or>
         ((\<exists>e. r1 = Inl e) \<and> (tr1 = tr \<or> (\<exists>a. tr1 = tr @ [Logged a])))"
proof (cases "\<exists>e. (r1, tr1) = (Inl e, tr)")
  case True
  then show ?thesis by auto
next
  case False
  with assms have "connectClient w sn sc tr = (r1, tr1)"
    by (auto simp: createClient_def split: transport.splits if_splits option.splits)
  from connectClient_trace [OF this] show ?thesis by blast
qed

lemma renderAndClose_shape:
  "\<exists>x y. renderAndClose w sn p a tr =
       (rethrowRenderError sn p (renderRequest w p a),
        tr @ [PromptRequested p a, Logged x, CloseCalled, Logged y]) \<and>
     (\<forall>m. closeFailure w = Some m \<longrightarrow>
        y = ''promptu: Error closing MCP client '' @ quoted sn @ '': '' @ m)"
  by (cases "renderRequest w p a"; cases "closeFailure w")
     (auto simp: renderAndClose_def Let_def split: error.splits)

lemma connectClient_close_irrelevant:
  "connectClient (w\<lparr>closeFailure := c\<rparr>) sn sc tr = connectClient w sn sc tr"
  by (simp add: connectClient_def)

lemma close_irrelevant:
  "renderRequest (w\<lparr>closeFailure := c\<rparr>) p a = renderRequest w p a"
  "createClient (w\<lparr>closeFailure := c\<rparr>) sn sc tr = createClient w sn sc tr"
  "parsePromptArgs (w\<lparr>closeFailure := c\<rparr>) i = parsePromptArgs w i"
  by (simp_all add: renderRequest_def createClient_def connectClient_close_irrelevant
      parsePromptArgs_def split: transport.splits option.splits)


lemma openAndRender_cases:
  assumes "openAndRender w sn p sc args tr = (r, tr')"
  shows "((\<exists>e. r = Inl e) \<and> (tr' = tr \<or> (\<exists>a. tr' = tr @ [Logged a]))) \<or>
         (\<exists>a b c. (r, tr') =
             renderAndClose w sn p args (tr @ [Logged a, Connected sn, Logged b, Logged c]))"
proof -
  obtain r1 tr1 where cc: "createClient w sn sc tr = (r1, tr1)"
    by (cases "createClient w sn sc tr") auto
  from createClient_trace [OF cc] show ?thesis
  proof (elim disjE conjE exE)
    fix a b assume "r1 = Inr ()" "tr1 = tr @ [Logged a, Connected sn, Logged b]"
    with assms cc have "(r, tr') = renderAndClose w sn p args
        (tr @ [Logged a, Connected sn, Logged b,
               Logged (''promptu: Fetching prompt '' @ quoted p
                 @ '' from MCP server '' @ quoted sn @ ''...'')])"
      by (simp add: openAndRender_def)
    then show ?thesis by blast
  next
    fix e assume "r1 = Inl e" "tr1 = tr"
    with assms cc show ?thesis by (auto simp: openAndRender_def)
  next
    fix e a assume "r1 = Inl e" "tr1 = tr @ [Logged a]"
    with assms cc show ?thesis by (auto simp: openAndRender_def)
  qed
qed

lemma getPrompt_reaches:
  assumes "getPrompt w name input mcpServers tr = (r, tr')"
  shows "((\<exists>e. r = Inl e) \<and> tr' = tr) \<or>
         (\<exists>sn p sc args. openAndRender w sn p sc args tr = (r, tr'))"
  using assms
  by (auto simp: getPrompt_def split: list.splits if_splits option.splits sum.splits)

lemma getPrompt_close_irrelevant:
  "fst (getPrompt (w\<lparr>closeFailure := c\<rparr>) name input mcpServers tr)
   = fst (getPrompt w name input mcpServers tr)"
proof -
  have "fst (renderAndClose (w\<lparr>closeFailure := c\<rparr>) sn p a t) = fst (renderAndClose w sn p a t)"
    for sn p a t
    using renderAndClose_shape [of "w\<lparr>closeFailure := c\<rparr>" sn p a t]
      renderAndClose_shape [of w sn p a t]
    by (auto simp: close_irrelevant)
  then have "fst (openAndRender (w\<lparr>closeFailure := c\<rparr>) sn p sc a t)
             = fst (openAndRender w sn p sc a t)" for sn p sc a t
    by (simp add: openAndRender_def close_irrelevant split: prod.splits sum.splits)
  then show ?thesis
    by (simp add: getPrompt_def close_irrelevant
        split: list.splits if_splits option.splits sum.splits)
qed


lemmas client_defs = getPrompt_def openAndRender_def createClient_def connectClient_def
  renderAndClose_def renderRequest_def rethrowRenderError_def parsePromptArgs_def
  exampleClientWorld_def exampleTool_def truthy_def strOf_def Let_def

text \<open>
  C8. Whenever \<open>getPrompt\<close> has opened a client session, \<^verbatim>\<open>client.close()\<close> is called
  exactly once, after the render request and before \<open>getPrompt\<close> returns or throws: both
  when the text of the first message is returned and when the request fails (the result is
  the text, or the error of the request thrown again). An error thrown by \<open>close\<close> is
  logged, and the result of \<open>getPrompt\<close> is the same whether \<open>close\<close> throws or not.
\<close>

theorem session_closed_on_every_exit:
  assumes "getPrompt w name input mcpServers tr = (r, tr')"
      and "Connected sn \<in> set (drop (length tr) tr')"
  shows "(\<exists>before p args note.
            tr' = tr @ before @ [CloseCalled, Logged note] \<and>
            Connected sn \<in> set before \<and> PromptRequested p args \<in> set before \<and>
            CloseCalled \<notin> set before \<and>
            r = rethrowRenderError sn p (renderRequest w p args) \<and>
            (\<forall>m. closeFailure w = Some m \<longrightarrow>
               note = ''promptu: Error closing MCP client '' @ quoted sn @ '': '' @ m)) \<and>
         (\<forall>c. fst (getPrompt (w\<lparr>closeFailure := c\<rparr>) name input mcpServers tr) = r)"
proof -
  have indep: "\<forall>c. fst (getPrompt (w\<lparr>closeFailure := c\<rparr>) name input mcpServers tr) = r"
    by (simp add: getPrompt_close_irrelevant assms(1))
  from getPrompt_reaches [OF assms(1)] assms(2)
  obtain s p sc args where "openAndRender w s p sc args tr = (r, tr')" by auto
  from openAndRender_cases [OF this] assms(2)
  obtain a b c where rc: "(r, tr') =
      renderAndClose w s p args (tr @ [Logged a, Connected s, Logged b, Logged c])"
    by auto
  from renderAndClose_shape [of w s p args "tr @ [Logged a, Connected s, Logged b, Logged c]"] rc
  obtain x y where
    r: "r = rethrowRenderError s p (renderRequest w p args)" and
    tr': "tr' = tr @ [Logged a, Connected s, Logged b, Logged c, PromptRequested p args, Logged x]
            @ [CloseCalled, Logged y]" and
    y: "\<forall>m. closeFailure w = Some m \<longrightarrow>
          y = ''promptu: Error closing MCP client '' @ quoted s @ '': '' @ m"
    by auto
  from tr' assms(2) have s: "sn = s" by simp
  let ?before = "[Logged a, Connected s, Logged b, Logged c, PromptRequested p args, Logged x]"
  have "tr' = tr @ ?before @ [CloseCalled, Logged y] \<and>
        Connected sn \<in> set ?before \<and> PromptRequested p args \<in> set ?before \<and>
        CloseCalled \<notin> set ?before \<and>
        r = rethrowRenderError sn p (renderRequest w p args) \<and>
        (\<forall>m. closeFailure w = Some m \<longrightarrow>
           y = ''promptu: Error closing MCP client '' @ quoted sn @ '': '' @ m)"
    using tr' r y s by simp
  then have "\<exists>before p args note.
            tr' = tr @ before @ [CloseCalled, Logged note] \<and>
            Connected sn \<in> set before \<and> PromptRequested p args \<in> set before \<and>
            CloseCalled \<notin> set before \<and>
            r = rethrowRenderError sn p (renderRequest w p args) \<and>
            (\<forall>m. closeFailure w = Some m \<longrightarrow>
               note = ''promptu: Error closing MCP client '' @ quoted sn @ '': '' @ m)"
    by blast
  with indep show ?thesis by blast
qed

theorem session_closed_on_every_exit_witness:
  "fst (getPrompt (exampleClientWorld (Some ''socket hang up'')) ''mcp.docs.review'' []
          [exampleTool ''docs''] []) = Inr ''Review this'' \<and>
   Connected ''docs'' \<in> set (snd (getPrompt (exampleClientWorld (Some ''socket hang up''))
          ''mcp.docs.review'' [] [exampleTool ''docs''] [])) \<and>
   last (snd (getPrompt (exampleClientWorld (Some ''socket hang up''))
          ''mcp.docs.review'' [] [exampleTool ''docs''] []))
     = Logged (''promptu: Error closing MCP client '' @ quoted ''docs'' @ '': socket hang up'') \<and>
   fst (getPrompt (exampleClientWorld None) ''mcp.docs.review'' []
          [exampleTool ''docs''] []) = Inr ''Review this''"
proof -
  let ?w = "exampleClientWorld (Some ''socket hang up'')"
  let ?run = "getPrompt ?w ''mcp.docs.review'' [] [exampleTool ''docs''] []"
  have run: "?run = (Inr ''Review this'', snd ?run)"
    by (simp add: client_defs)
  have opened: "Connected ''docs'' \<in> set (drop (length []) (snd ?run))"
    by (simp add: client_defs)
  have cf: "closeFailure ?w = Some ''socket hang up''"
    "?w\<lparr>closeFailure := None\<rparr> = exampleClientWorld None"
    by (simp_all add: exampleClientWorld_def)
  from session_closed_on_every_exit [OF run opened]
  obtain before closeLog where
    tr: "snd ?run = [] @ before @ [CloseCalled, Logged closeLog]" and
    cl: "\<forall>m. closeFailure ?w = Some m \<longrightarrow>
             closeLog = ''promptu: Error closing MCP client '' @ quoted ''docs'' @ '': '' @ m" and
    indep: "\<forall>c. fst (getPrompt (?w\<lparr>closeFailure := c\<rparr>) ''mcp.docs.review'' []
                     [exampleTool ''docs''] []) = Inr ''Review this''"
    by blast
  from cl cf(1) have "closeLog = ''promptu: Error closing MCP client '' @ quoted ''docs''
      @ '': socket hang up''" by simp
  with tr have "last (snd ?run) = Logged (''promptu: Error closing MCP client ''
      @ quoted ''docs'' @ '': socket hang up'')" by simp
  moreover from indep cf(2) have "fst (getPrompt (exampleClientWorld None) ''mcp.docs.review'' []
      [exampleTool ''docs''] []) = Inr ''Review this''" by metis
  moreover from run have "fst ?run = Inr ''Review this''" by (metis fst_conv)
  moreover from opened have "Connected ''docs'' \<in> set (snd ?run)" by simp
  ultimately show ?thesis by blast
qed

section \<open>Properties of the retrieval\<close>

lemma record_event_simps [simp]:
  "fetchLog (record_event e st) = fetchLog st @ [e]"
  "files (record_event e st) = files st"
  "promptFilesLocations (record_event e st) = promptFilesLocations st"
  by (simp_all add: record_event_def)

lemma fetchViaHttp_rejects:
  assumes "(\<exists>msg. httpFetch w url headers = FetchRejected msg) \<or>
           httpFetch w url headers = FetchAborted \<or>
           (\<exists>ok status statusText body.
              httpFetch w url headers = FetchResponse ok status statusText body \<and>
              (\<not> ok \<or> str_includes body ''<html'' \<or>
               str_includes body ''Sign in to your account''))"
  shows "\<exists>e. fetchViaHttp w url headers = Inl e"
  using assms by (auto simp: fetchViaHttp_def isSignInPage_def)

lemma ensurePromptsDirectory_log:
  "ensurePromptsDirectory w st = (r, st1) \<Longrightarrow>
   \<exists>new. fetchLog st1 = fetchLog st @ new \<and> set new \<subseteq> {Notification}"
  by (auto simp: ensurePromptsDirectory_def Let_def split: option.splits if_splits)

lemma storeFile_log:
  assumes "storePromptInStorage w (SourceFile path) name st = (r, st1)"
  shows "\<exists>new. fetchLog st1 = fetchLog st @ new \<and>
           (\<forall>p c. FileWritten p c \<notin> set new) \<and>
           (r = Inr () \<longrightarrow> (\<exists>d. FileCopied path d \<in> set new))"
proof -
  obtain r0 st0 where e: "ensurePromptsDirectory w st = (r0, st0)"
    by (cases "ensurePromptsDirectory w st") auto
  from ensurePromptsDirectory_log [OF e] obtain n0 where
    n0: "fetchLog st0 = fetchLog st @ n0" "set n0 \<subseteq> {Notification}" by auto
  then have nw: "\<forall>p c. FileWritten p c \<notin> set n0" by auto
  have "(fetchLog st1 = fetchLog st0 \<and> r \<noteq> Inr ()) \<or>
        (\<exists>d. fetchLog st1 = fetchLog st0 @ [FileCopied path d])"
    using assms e
    by (auto simp: storePromptInStorage_def Let_def split: sum.splits error.splits option.splits)
  then show ?thesis
  proof
    assume "fetchLog st1 = fetchLog st0 \<and> r \<noteq> Inr ()"
    with n0 nw show ?thesis by auto
  next
    assume "\<exists>d. fetchLog st1 = fetchLog st0 @ [FileCopied path d]"
    then obtain d where "fetchLog st1 = fetchLog st @ (n0 @ [FileCopied path d])"
      using n0 by auto
    moreover have "\<forall>p c. FileWritten p c \<notin> set (n0 @ [FileCopied path d])" using nw by auto
    moreover have "FileCopied path d \<in> set (n0 @ [FileCopied path d])" by simp
    ultimately show ?thesis by blast
  qed
qed

lemma cleanupDirectory_log [simp]:
  "fetchLog (cleanupDirectory d st) = fetchLog st @ [DirectoryRemoved d]"
  by (simp add: cleanupDirectory_def)

lemma executeGitCommand_log:
  "executeGitCommand w args st = (r, st1) \<Longrightarrow> fetchLog st1 = fetchLog st @ [GitRun args]"
  by (auto simp: executeGitCommand_def Let_def split: git_outcome.splits if_splits)

lemma fetchViaGitToFile_log:
  assumes "fetchViaGitToFile w p st = (r, st')"
  shows "\<exists>new. fetchLog st' = fetchLog st @ new \<and> (\<forall>q c. FileWritten q c \<notin> set new) \<and>
           (p_type p = Github \<or> p_type p = Ado \<longrightarrow> (\<exists>args. GitRun args \<in> set new)) \<and>
           (r = Inr () \<longrightarrow> (\<exists>src dst. FileCopied src dst \<in> set new))"
proof (cases "buildGitUrl p")
  case (Inl e)
  with assms show ?thesis
    by (auto simp: fetchViaGitToFile_def buildGitUrl_def split: if_splits)
next
  case (Inr repoUrl)
  let ?args = "[''clone'', ''--depth'', ''1'', repoUrl, tempDir w]"
  obtain r1 st1 where g: "executeGitCommand w ?args st = (r1, st1)"
    by (cases "executeGitCommand w ?args st") auto
  note l1 = executeGitCommand_log [OF g]
  show ?thesis
  proof (cases "\<exists>fp. r1 = Inr () \<and> p_filePath p = Some fp")
    case False
    with assms Inr g have "st' = cleanupDirectory (tempDir w) st1" "r \<noteq> Inr ()"
      by (auto simp: fetchViaGitToFile_def split: sum.splits option.splits)
    with l1 have "fetchLog st' = fetchLog st @ [GitRun ?args, DirectoryRemoved (tempDir w)]"
      "r \<noteq> Inr ()"
      by simp_all
    then show ?thesis by auto
  next
    case True
    then obtain fp where fp: "r1 = Inr ()" "p_filePath p = Some fp" by auto
    let ?src = "pathJoin (tempDir w) fp"
    obtain r2 st2 where s: "storePromptInStorage w (SourceFile ?src) (p_name p) st1 = (r2, st2)"
      by (cases "storePromptInStorage w (SourceFile ?src) (p_name p) st1") auto
    from storeFile_log [OF s] obtain n2 where
      n2: "fetchLog st2 = fetchLog st1 @ n2" "\<forall>p c. FileWritten p c \<notin> set n2"
        "r2 = Inr () \<longrightarrow> (\<exists>d. FileCopied ?src d \<in> set n2)" by auto
    from assms Inr g fp s have st': "st' = cleanupDirectory (tempDir w) st2" and r: "r = r2"
      by (auto simp: fetchViaGitToFile_def)
    let ?new = "GitRun ?args # n2 @ [DirectoryRemoved (tempDir w)]"
    have "fetchLog st' = fetchLog st @ ?new" using st' l1 n2(1) by simp
    moreover have "\<forall>q c. FileWritten q c \<notin> set ?new" using n2(2) by auto
    moreover have "\<exists>args. GitRun args \<in> set ?new" by auto
    moreover have "r = Inr () \<longrightarrow> (\<exists>src dst. FileCopied src dst \<in> set ?new)"
      using n2(3) r by auto
    ultimately show ?thesis by blast
  qed
qed

lemmas fetch_defs = fetchViaGitToFile_def buildGitUrl_def executeGitCommand_def
  storePromptInStorage_def ensurePromptsDirectory_def cleanupDirectory_def checkout_def
  pathJoin_def record_event_def examplePrompt_def emptyPrompt_def signInWorld_def
  emptyDisk_def strOf_def startsWith_def quoted_def Let_def

text \<open>
  C1. For a GitHub or Azure DevOps address, when the raw-URL request of the first tier is
  rejected, times out, answers with a non-success status, or answers with a body that
  contains \<open><html\<close> or \<open>Sign in to your account\<close>, the outcome of
  \<open>fetchWithFallbackStrategyToFile\<close> is the outcome of the clone-based
  \<open>fetchViaGitToFile\<close>: git is run, no content is ever written to storage from the
  HTTP body, and a success means the file was copied out of the clone.
\<close>

theorem sign_in_page_falls_back_to_clone:
  assumes "p_type p = Github \<or> p_type p = Ado"
      and "buildRawFileUrl p = Inr rawUrl"
      and "tier1Headers w p = Inr headers"
      and "(\<exists>msg. httpFetch w rawUrl headers = FetchRejected msg) \<or>
           httpFetch w rawUrl headers = FetchAborted \<or>
           (\<exists>ok status statusText body.
              httpFetch w rawUrl headers = FetchResponse ok status statusText body \<and>
              (\<not> ok \<or> str_includes body ''<html'' \<or>
               str_includes body ''Sign in to your account''))"
  shows "fetchWithFallbackStrategyToFile w p st
           = fetchViaGitToFile w p (record_event (HttpGet rawUrl headers) st) \<and>
         (\<forall>r st'. fetchWithFallbackStrategyToFile w p st = (r, st') \<longrightarrow>
            (\<exists>new. fetchLog st' = fetchLog st @ new \<and>
               (\<forall>path content. FileWritten path content \<notin> set new) \<and>
               (\<exists>args. GitRun args \<in> set new) \<and>
               (r = Inr () \<longrightarrow> (\<exists>src dst. FileCopied src dst \<in> set new))))"
proof -
  from fetchViaHttp_rejects [OF assms(4)] obtain e where "fetchViaHttp w rawUrl headers = Inl e"
    by blast
  with assms(2,3) have eq: "fetchWithFallbackStrategyToFile w p st
      = fetchViaGitToFile w p (record_event (HttpGet rawUrl headers) st)"
    by (simp add: fetchWithFallbackStrategyToFile_def fetchRawFile_def)
  have "\<exists>new. fetchLog st' = fetchLog st @ new \<and>
               (\<forall>path content. FileWritten path content \<notin> set new) \<and>
               (\<exists>args. GitRun args \<in> set new) \<and>
               (r = Inr () \<longrightarrow> (\<exists>src dst. FileCopied src dst \<in> set new))"
    if run: "fetchWithFallbackStrategyToFile w p st = (r, st')" for r st'
  proof -
    from run eq have "fetchViaGitToFile w p (record_event (HttpGet rawUrl headers) st) = (r, st')"
      by simp
    from fetchViaGitToFile_log [OF this] assms(1) obtain n where
      n: "fetchLog st' = fetchLog st @ (HttpGet rawUrl headers # n)"
        "\<forall>q c. FileWritten q c \<notin> set n" "\<exists>args. GitRun args \<in> set n"
        "r = Inr () \<longrightarrow> (\<exists>src dst. FileCopied src dst \<in> set n)"
      by auto
    let ?new = "HttpGet rawUrl headers # n"
    have "\<forall>q c. FileWritten q c \<notin> set ?new" using n(2) by auto
    moreover have "\<exists>args. GitRun args \<in> set ?new" using n(3) by auto
    moreover have "r = Inr () \<longrightarrow> (\<exists>src dst. FileCopied src dst \<in> set ?new)" using n(4) by auto
    ultimately show ?thesis using n(1) by blast
  qed
  with eq show ?thesis by blast
qed

theorem sign_in_page_falls_back_to_clone_witness:
  "fst (fetchWithFallbackStrategyToFile signInWorld examplePrompt emptyDisk) = Inr () \<and>
   files (snd (fetchWithFallbackStrategyToFile signInWorld examplePrompt emptyDisk))
     ''/storage/prompts/code-review.prompt.md'' = Some ''Review the code'' \<and>
   (\<exists>new. fetchLog (snd (fetchWithFallbackStrategyToFile signInWorld examplePrompt emptyDisk))
            = fetchLog emptyDisk @ new \<and>
          (\<forall>path content. FileWritten path content \<notin> set new))"
proof -
  let ?url = "''https://raw.githubusercontent.com/acme/prompts/main/code-review.prompt.md''"
  have t: "p_type examplePrompt = Github \<or> p_type examplePrompt = Ado"
    by (simp add: examplePrompt_def emptyPrompt_def)
  have u: "buildRawFileUrl examplePrompt = Inr ?url"
    by (simp add: buildRawFileUrl_def examplePrompt_def emptyPrompt_def strOf_def)
  have h: "tier1Headers signInWorld examplePrompt = Inr []"
    by (simp add: tier1Headers_def examplePrompt_def emptyPrompt_def)
  have f: "(\<exists>msg. httpFetch signInWorld ?url [] = FetchRejected msg) \<or>
           httpFetch signInWorld ?url [] = FetchAborted \<or>
           (\<exists>ok status statusText body.
              httpFetch signInWorld ?url [] = FetchResponse ok status statusText body \<and>
              (\<not> ok \<or> str_includes body ''<html'' \<or>
               str_includes body ''Sign in to your account''))"
    by (auto simp add: signInWorld_def startsWith_def)
  note fallback = sign_in_page_falls_back_to_clone [OF t u h f, of emptyDisk]
  have git: "fst (fetchViaGitToFile signInWorld examplePrompt (record_event (HttpGet ?url []) emptyDisk))
      = Inr ()"
    "files (snd (fetchViaGitToFile signInWorld examplePrompt
        (record_event (HttpGet ?url []) emptyDisk))) ''/storage/prompts/code-review.prompt.md''
      = Some ''Review the code''"
    by (simp_all add: fetch_defs)
  obtain r st' where run: "fetchWithFallbackStrategyToFile signInWorld examplePrompt emptyDisk = (r, st')"
    by (cases "fetchWithFallbackStrategyToFile signInWorld examplePrompt emptyDisk") auto
  with fallback obtain new where "fetchLog st' = fetchLog emptyDisk @ new"
    "\<forall>path content. FileWritten path content \<notin> set new" by blast
  with run git fallback show ?thesis by auto
qed

lemma storeContent_log:
  assumes "storePromptInStorage w (Content c) name st = (r, st1)"
  shows "\<exists>new. fetchLog st1 = fetchLog st @ new \<and>
           (\<forall>p c'. FileWritten p c' \<in> set new \<longrightarrow> c' = c)"
proof -
  obtain r0 st0 where e: "ensurePromptsDirectory w st = (r0, st0)"
    by (cases "ensurePromptsDirectory w st") auto
  from ensurePromptsDirectory_log [OF e] obtain n0 where
    n0: "fetchLog st0 = fetchLog st @ n0" "set n0 \<subseteq> {Notification}" by auto
  then have nw: "\<forall>p c. FileWritten p c \<notin> set n0" by auto
  have "fetchLog st1 = fetchLog st0 \<or> (\<exists>d. fetchLog st1 = fetchLog st0 @ [FileWritten d c])"
    using assms e
    by (auto simp: storePromptInStorage_def Let_def split: sum.splits error.splits option.splits)
  then show ?thesis
  proof
    assume "fetchLog st1 = fetchLog st0"
    with n0 nw show ?thesis by auto
  next
    assume "\<exists>d. fetchLog st1 = fetchLog st0 @ [FileWritten d c]"
    then obtain d where "fetchLog st1 = fetchLog st @ (n0 @ [FileWritten d c])"
      using n0 by auto
    moreover have "\<forall>p c'. FileWritten p c' \<in> set (n0 @ [FileWritten d c]) \<longrightarrow> c' = c"
      using nw by auto
    ultimately show ?thesis by blast
  qed
qed

lemma fetchViaHttp_content:
  "fetchViaHttp w url headers = Inr content \<Longrightarrow> \<not> isSignInPage content"
  by (auto simp: fetchViaHttp_def split: fetch_outcome.splits if_splits)

text \<open>
  Whatever the first tier does, a body that is written to storage is never one that
  \<open>fetchViaHttp\<close> takes for a sign-in page.
\<close>

lemma stored_content_is_not_sign_in_page:
  assumes "fetchWithFallbackStrategyToFile w p st = (r, st')"
  shows "\<exists>new. fetchLog st' = fetchLog st @ new \<and>
           (\<forall>path content. FileWritten path content \<in> set new \<longrightarrow> \<not> isSignInPage content)"
proof (cases "buildRawFileUrl p")
  case (Inl e)
  with assms show ?thesis by (simp add: fetchWithFallbackStrategyToFile_def)
next
  case (Inr rawUrl)
  obtain r1 st1 where raw: "fetchRawFile w rawUrl p st = (r1, st1)"
    by (cases "fetchRawFile w rawUrl p st") auto
  have l1: "\<exists>n1. fetchLog st1 = fetchLog st @ n1 \<and>
      (\<forall>path content. FileWritten path content \<in> set n1 \<longrightarrow> \<not> isSignInPage content)"
  proof (cases "tier1Headers w p")
    case (Inl e)
    with raw show ?thesis by (simp add: fetchRawFile_def)
  next
    case hd: (Inr headers)
    show ?thesis
    proof (cases "fetchViaHttp w rawUrl headers")
      case (Inl e)
      with raw hd have "fetchLog st1 = fetchLog st @ [HttpGet rawUrl headers]"
        by (auto simp: fetchRawFile_def)
      then show ?thesis by auto
    next
      case (Inr content)
      with raw hd have "storePromptInStorage w (Content content) (p_name p)
          (record_event (HttpGet rawUrl headers) st) = (r1, st1)"
        by (simp add: fetchRawFile_def)
      from storeContent_log [OF this] obtain n where
        n: "fetchLog st1 = fetchLog st @ (HttpGet rawUrl headers # n)"
          "\<forall>p c'. FileWritten p c' \<in> set n \<longrightarrow> c' = content" by auto
      have "\<forall>path c'. FileWritten path c' \<in> set (HttpGet rawUrl headers # n)
              \<longrightarrow> \<not> isSignInPage c'"
        using n(2) fetchViaHttp_content [OF Inr] by auto
      with n(1) show ?thesis by blast
    qed
  qed
  then obtain n1 where n1: "fetchLog st1 = fetchLog st @ n1"
    "\<forall>path content. FileWritten path content \<in> set n1 \<longrightarrow> \<not> isSignInPage content" by blast
  show ?thesis
  proof (cases r1)
    case (Inr u)
    with assms \<open>buildRawFileUrl p = Inr rawUrl\<close> raw have "st' = st1"
      by (simp add: fetchWithFallbackStrategyToFile_def)
    with n1 show ?thesis by blast
  next
    case (Inl e)
    with assms \<open>buildRawFileUrl p = Inr rawUrl\<close> raw
    have "fetchViaGitToFile w p st1 = (r, st')"
      by (simp add: fetchWithFallbackStrategyToFile_def)
    from fetchViaGitToFile_log [OF this] obtain n2 where
      n2: "fetchLog st' = fetchLog st1 @ n2" "\<forall>q c. FileWritten q c \<notin> set n2" by blast
    have "fetchLog st' = fetchLog st @ (n1 @ n2)" using n1(1) n2(1) by simp
    moreover have "\<forall>path content. FileWritten path content \<in> set (n1 @ n2)
        \<longrightarrow> \<not> isSignInPage content" using n1(2) n2(2) by auto
    ultimately show ?thesis by blast
  qed
qed

end
